theory Spec2Isabelle
  imports Complex_Main
begin

section \<open>Arrays, errors and the numpy operations the grid engine uses\<close>

text \<open>
  The engine of \<^verbatim>\<open>psc_grid.py\<close> works on numpy arrays of floats. Floats are read as real
  numbers throughout: a one-dimensional array is a list, an array of shape (n, 3) is a
  list of triples, a two-dimensional array is the list of its rows. Where numpy would carry
  on with \<^verbatim>\<open>inf\<close> or \<^verbatim>\<open>nan\<close> (a division by zero, a logarithm of a non-positive number)
  the operations below stop with \<open>NonFinite\<close>, since no real number stands for such a value.
\<close>

type_synonym vec3 = "real \<times> real \<times> real"
type_synonym vector = "real list"
type_synonym matrix = "real list list"

datatype error =
    ValueError string
  | ZeroDivisionError
  | UnboundLocalError
  | IndexError
  | LinAlgError
  | NonFinite

text \<open>Sequencing: an exception raised by a step ends the whole computation.\<close>

definition and_then :: "error + 'a \<Rightarrow> ('a \<Rightarrow> error + 'b) \<Rightarrow> error + 'b" where
  "and_then r f = (case r of Inl e \<Rightarrow> Inl e | Inr v \<Rightarrow> f v)"

definition isValueError :: "error + 'a \<Rightarrow> bool" where
  "isValueError r = (case r of Inl (ValueError m) \<Rightarrow> True | _ \<Rightarrow> False)"

definition returns :: "error + 'a \<Rightarrow> bool" where
  "returns r = (case r of Inl e \<Rightarrow> False | Inr v \<Rightarrow> True)"

text \<open>\<^verbatim>\<open>np.isclose(x, 0.0)\<close> with the default tolerances: \<open>|x - 0| \<le> atol + rtol * |0|\<close>,
  \<open>atol = 1e-8\<close>.\<close>

definition isclose0 :: "real \<Rightarrow> bool" where
  "isclose0 x = (\<bar>x\<bar> \<le> 1 / 10 ^ 8)"

text \<open>The fix-up applied to every freshly computed normal:
  \<^verbatim>\<open>normals[np.logical_and(np.isclose(normals, 0.0), np.copysign(1.0, normals) < 0)] *= -1.0\<close>.
  On reals \<^verbatim>\<open>copysign(1.0, x) < 0\<close> is \<open>x < 0\<close>.\<close>

definition flip_small_negative :: "real \<Rightarrow> real" where
  "flip_small_negative x = (if isclose0 x \<and> x < 0 then x * (- 1) else x)"

definition flip_small_negative3 :: "vec3 \<Rightarrow> vec3" where
  "flip_small_negative3 = (\<lambda>(x, y, z).
     (flip_small_negative x, flip_small_negative y, flip_small_negative z))"

text \<open>\<^verbatim>\<open>np.arctan2(y, x)\<close>, the angle of the point (x, y) in \<open>(-pi, pi]\<close>.\<close>

definition arctan2 :: "real \<Rightarrow> real \<Rightarrow> real" where
  "arctan2 y x =
     (if 0 < x then arctan (y / x)
      else if x < 0 \<and> 0 \<le> y then arctan (y / x) + pi
      else if x < 0 then arctan (y / x) - pi
      else if 0 < y then pi / 2
      else if y < 0 then - (pi / 2)
      else 0)"

definition sub3 :: "vec3 \<Rightarrow> vec3 \<Rightarrow> vec3" where
  "sub3 = (\<lambda>(x, y, z) (u, v, w). (x - u, y - v, z - w))"

definition sumsq3 :: "vec3 \<Rightarrow> real" where
  "sumsq3 = (\<lambda>(x, y, z). x ^ 2 + y ^ 2 + z ^ 2)"

definition dot3 :: "vec3 \<Rightarrow> vec3 \<Rightarrow> real" where
  "dot3 = (\<lambda>(x, y, z) (u, v, w). x * u + y * v + z * w)"

text \<open>Elementwise binary operations along the first axis of two arrays, with numpy's
  broadcasting of a length-one operand and its error for any other mismatch.\<close>

definition broadcast2 :: "('a \<Rightarrow> 'b \<Rightarrow> 'c) \<Rightarrow> 'a list \<Rightarrow> 'b list \<Rightarrow> error + 'c list" where
  "broadcast2 f xs ys =
     (if length xs = length ys then Inr (map2 f xs ys)
      else if length xs = 1 then Inr (map (f (hd xs)) ys)
      else if length ys = 1 then Inr (map (\<lambda>x. f x (hd ys)) xs)
      else Inl (ValueError ''operands could not be broadcast together''))"

definition dot :: "vector \<Rightarrow> vector \<Rightarrow> real" where
  "dot xs ys = sum_list (map2 (*) xs ys)"

text \<open>\<^verbatim>\<open>M @ v\<close> for a two-dimensional \<open>M\<close> and a one-dimensional \<open>v\<close>: every row of \<open>M\<close>
  must be as long as \<open>v\<close>.\<close>

definition matvec :: "matrix \<Rightarrow> vector \<Rightarrow> error + vector" where
  "matvec M v =
     (if \<forall>row \<in> set M. length row = length v then Inr (map (\<lambda>row. dot row v) M)
      else Inl (ValueError ''matmul: dimension mismatch''))"

definition is_square :: "matrix \<Rightarrow> bool" where
  "is_square M = (\<forall>row \<in> set M. length row = length M)"

text \<open>\<^verbatim>\<open>M + M.T\<close>. The inductance kernel returns one row and one column per coil; for a
  two-dimensional array that is not square the sum is numpy's shape error.\<close>

definition add_transpose :: "matrix \<Rightarrow> error + matrix" where
  "add_transpose M =
     (if is_square M
      then Inr (map (\<lambda>i. map (\<lambda>j. M ! i ! j + M ! j ! i) [0..<length M]) [0..<length M])
      else Inl (ValueError ''operands could not be broadcast together''))"

text \<open>\<^verbatim>\<open>np.fill_diagonal(M, d)\<close> on a square array.\<close>

definition fill_diagonal :: "matrix \<Rightarrow> real \<Rightarrow> matrix" where
  "fill_diagonal M d = map (\<lambda>i. (M ! i)[i := d]) [0..<length M]"

definition scale_matrix :: "matrix \<Rightarrow> real \<Rightarrow> matrix" where
  "scale_matrix M s = map (map (\<lambda>x. x * s)) M"



section \<open>The grid object and its collaborators\<close>

text \<open>
  The attributes of a \<^verbatim>\<open>PSCgrid\<close> that the setup and the objective read or write.
  \<^verbatim>\<open>num_psc\<close>, \<^verbatim>\<open>symmetry\<close> and \<^verbatim>\<open>stell_list\<close> are assigned once by both constructors, from
  \<^verbatim>\<open>grid_xyz.shape[0]\<close>, \<^verbatim>\<open>nfp * (stellsym + 1)\<close> and \<^verbatim>\<open>stellsym\<close>, and never again; they
  are functions of the record below. \<^verbatim>\<open>fac\<close> is the constant \<^verbatim>\<open>1e-7\<close> of \<^verbatim>\<open>__init__\<close>.
\<close>

record psc_grid =
  BdotN2_list :: "real list"
  quad_points_phi :: vector
  quad_weights :: vector
  quad_points_rho :: vector
  grid_xyz :: "vec3 list"
  R :: real
  a :: real
  alphas :: vector
  deltas :: vector
  nfp :: nat
  stellsym :: bool
  nphi :: nat
  ntheta :: nat
  plasma_unitnormals :: "vec3 list"
  plasma_points :: "vec3 list"
  grid_normalization :: vector
  Bn_plasma :: vector
  normalization :: real
  fac2_norm :: real
  coil_normals :: "vec3 list"
  grid_xyz_all :: "vec3 list"
  grid_xyz_all_normalized :: "vec3 list"
  coil_normals_all :: "vec3 list"
  alphas_total :: vector
  deltas_total :: vector
  aaprime_aa :: vector
  aaprime_dd :: vector
  ddprime_dd :: vector
  ddprime_aa :: vector
  L :: matrix
  flux_grid :: "vec3 list"
  psi_total :: vector
  psi :: vector
  L_inv :: matrix
  I_all :: vector
  I :: vector
  A_matrix :: matrix
  Bn_PSC :: vector
  b_opt :: vector
  kappas :: vector

definition fac :: real where
  "fac = 1 / 10 ^ 7"

definition num_psc :: "psc_grid \<Rightarrow> nat" where
  "num_psc g = length (grid_xyz g)"

definition stell_list :: "psc_grid \<Rightarrow> real list" where
  "stell_list g = (if stellsym g then [1, - 1] else [1])"

definition symmetry :: "psc_grid \<Rightarrow> nat" where
  "symmetry g = nfp g * ((if stellsym g then 1 else 0) + 1)"

text \<open>
  A toroidal surface as the engine sees it: its symmetries, its quadrature points, the
  flattened arrays \<^verbatim>\<open>unitnormal()\<close>, \<^verbatim>\<open>gamma()\<close> and \<^verbatim>\<open>normal()\<close>, its area and the
  Fourier coefficient \<^verbatim>\<open>get_rc(0, 0)\<close>.
\<close>

record surface =
  s_nfp :: nat
  s_stellsym :: bool
  quadpoints_phi :: vector
  quadpoints_theta :: vector
  unitnormal :: "vec3 list"
  gamma :: "vec3 list"
  normal :: "vec3 list"
  area :: real
  rc00 :: real

text \<open>
  What the engine calls but does not define: the compiled kernels of \<^verbatim>\<open>simsoptpp\<close>, the
  field of the external coils and numpy's matrix inversion. They are parameters of the
  model. \<open>angles_xsimd\<close> stands for the six angle outputs of
  \<^verbatim>\<open>sopp.update_alphas_deltas_xsimd\<close> (\<^verbatim>\<open>alphas_total\<close>, \<^verbatim>\<open>deltas_total\<close>, \<^verbatim>\<open>aaprime_aa\<close>,
  \<^verbatim>\<open>aaprime_dd\<close>, \<^verbatim>\<open>ddprime_dd\<close>, \<^verbatim>\<open>ddprime_aa\<close>); \<open>B_TF_B\<close> for \<^verbatim>\<open>B_TF.set_points(p)\<close>
  followed by \<^verbatim>\<open>B_TF.B()\<close>; \<open>linalg_inv\<close> for \<^verbatim>\<open>np.linalg.inv\<close>, which raises
  \<^verbatim>\<open>LinAlgError\<close> (here \<open>None\<close>) on a singular or non-square argument;
  \<open>leggauss\<close> for \<^verbatim>\<open>np.polynomial.legendre.leggauss\<close>; \<open>calculate_on_axis_B\<close> for the
  on-axis strength of the external field; \<open>define_grid\<close> for
  \<^verbatim>\<open>sopp.define_a_uniform_cartesian_grid_between_two_toroidal_surfaces\<close>;
  \<open>random_rand k n\<close> for the \<open>k\<close>-th call \<^verbatim>\<open>np.random.rand(n)\<close>; \<open>default_surf\<close> for the
  low-resolution surface that \<^verbatim>\<open>geo_setup_manual\<close> loads from a file when none is passed.
  The external coils passed to a constructor determine \<open>B_TF_B\<close> and
  \<open>calculate_on_axis_B\<close>.
\<close>

record collab =
  angles_xsimd :: "vec3 list \<Rightarrow> nat \<Rightarrow> nat \<Rightarrow>
     vector \<times> vector \<times> vector \<times> vector \<times> vector \<times> vector"
  L_matrix :: "vec3 list \<Rightarrow> vector \<Rightarrow> vector \<Rightarrow> vector \<Rightarrow> vector \<Rightarrow> matrix"
  flux_xyz :: "vec3 list \<Rightarrow> vector \<Rightarrow> vector \<Rightarrow> vector \<Rightarrow> vector \<Rightarrow> vec3 list"
  flux_integration :: "vec3 list \<Rightarrow> vector \<Rightarrow> vec3 list \<Rightarrow> vector \<Rightarrow> vector"
  A_matrix_simd :: "vec3 list \<Rightarrow> vec3 list \<Rightarrow> vector \<Rightarrow> vector \<Rightarrow> vec3 list \<Rightarrow> real \<Rightarrow> matrix"
  B_TF_B :: "vec3 list \<Rightarrow> vec3 list"
  linalg_inv :: "matrix \<Rightarrow> matrix option"
  leggauss :: "nat \<Rightarrow> vector \<times> vector"
  calculate_on_axis_B :: "surface \<Rightarrow> real"
  define_grid :: "vec3 list \<Rightarrow> vec3 list \<Rightarrow> vec3 list \<Rightarrow> vec3 list \<Rightarrow> vec3 list \<Rightarrow> vec3 list"
  random_rand :: "nat \<Rightarrow> nat \<Rightarrow> vector"
  default_surf :: surface


section \<open>Symmetry expansion\<close>

text \<open>The pairs \<open>(phi0, stell)\<close> in the order of the nested loops
  \<^verbatim>\<open>for fp in range(nfp): for stell in stell_list:\<close>, with \<^verbatim>\<open>phi0 = (2 * np.pi / nfp) * fp\<close>.\<close>

definition symmetry_blocks :: "nat \<Rightarrow> real list \<Rightarrow> (real \<times> real) list" where
  "symmetry_blocks n stl =
     concat (map (\<lambda>fp. map (\<lambda>stell. ((2 * pi / real n) * real fp, stell)) stl) [0..<n])"

text \<open>One block of \<^verbatim>\<open>setup_full_grid\<close>: the rotation by \<open>phi0\<close> about the z axis, with the
  y and z components multiplied by \<open>stell\<close>.\<close>

definition rotate_stell :: "real \<times> real \<Rightarrow> vec3 \<Rightarrow> vec3" where
  "rotate_stell = (\<lambda>(phi0, stell) (x, y, z).
     (x * cos phi0 - y * sin phi0 * stell,
      x * sin phi0 + y * cos phi0 * stell,
      z * stell))"

definition expand_symmetries :: "nat \<Rightarrow> real list \<Rightarrow> vec3 list \<Rightarrow> vec3 list" where
  "expand_symmetries n stl ps =
     concat (map (\<lambda>b. map (rotate_stell b) ps) (symmetry_blocks n stl))"

text \<open>
  Modelled from the spec: the expanded normals returned by the compiled kernel
  \<^verbatim>\<open>sopp.update_alphas_deltas_xsimd(coil_normals, nfp, int(stellsym))\<close>, whose code is not
  part of the sources at hand. The specification says that the expanded normals are
  "computed analogously" to the expanded centers: for each of the nfp rotations combined with
  each stellarator-symmetry sign, a rotation by \<open>phi0 = 2 pi fp / nfp\<close> about the toroidal
  axis, with the sign applied to the y and z components.
\<close>

definition expanded_normals_xsimd :: "vec3 list \<Rightarrow> nat \<Rightarrow> nat \<Rightarrow> vec3 list" where
  "expanded_normals_xsimd normals n stell =
     expand_symmetries n (if stell = 0 then [1] else [1, - 1]) normals"

definition update_alphas_deltas :: "collab \<Rightarrow> psc_grid \<Rightarrow> psc_grid" where
  "update_alphas_deltas c g =
     (let s = (if stellsym g then 1 else 0);
          (a_tot, d_tot, aa, ad, dd, da) = angles_xsimd c (coil_normals g) (nfp g) s
      in g\<lparr>coil_normals_all := expanded_normals_xsimd (coil_normals g) (nfp g) s,
            alphas_total := a_tot, deltas_total := d_tot,
            aaprime_aa := aa, aaprime_dd := ad, ddprime_dd := dd, ddprime_aa := da\<rparr>)"

text \<open>\<^verbatim>\<open>setup_full_grid\<close>: the expanded centers, block by block, then their division by
  \<open>R\<close>, then the expanded normals.\<close>

definition setup_full_grid :: "collab \<Rightarrow> psc_grid \<Rightarrow> error + psc_grid" where
  "setup_full_grid c g =
     (let xyz_all = expand_symmetries (nfp g) (stell_list g) (grid_xyz g)
      in if R g = 0 \<and> xyz_all \<noteq> [] then Inl NonFinite
         else Inr (update_alphas_deltas c
                (g\<lparr>grid_xyz_all := xyz_all,
                   grid_xyz_all_normalized :=
                     map (\<lambda>(x, y, z). (x / R g, y / R g, z / R g)) xyz_all\<rparr>)))"


section \<open>Orientation update and inductance assembly\<close>

definition coil_normal :: "real \<Rightarrow> real \<Rightarrow> vec3" where
  "coil_normal al de = (cos al * sin de, - sin al, cos al * cos de)"

text \<open>\<^verbatim>\<open>np.array([np.cos(alphas) * np.sin(deltas), -np.sin(alphas),
  np.cos(alphas) * np.cos(deltas)]).T\<close>: the three rows must come out equally long, which
  they do when the two arrays are equally long or \<open>deltas\<close> has length one.\<close>

definition orientation_normals :: "vector \<Rightarrow> vector \<Rightarrow> error + vec3 list" where
  "orientation_normals als des =
     (if length des = length als then Inr (map2 coil_normal als des)
      else if length des = 1 then Inr (map (\<lambda>al. coil_normal al (hd des)) als)
      else Inl (ValueError ''setting an array element with a sequence''))"

text \<open>The diagonal value \<^verbatim>\<open>(np.log(8.0 * R / a) - 2.0) * 4 * np.pi\<close>.\<close>

definition self_inductance :: "real \<Rightarrow> real \<Rightarrow> error + real" where
  "self_inductance r0 a0 =
     (if a0 = 0 then Inl ZeroDivisionError
      else if 8 * r0 / a0 \<le> 0 then Inl NonFinite
      else Inr ((ln (8 * r0 / a0) - 2) * 4 * pi))"

definition setup_orientations :: "collab \<Rightarrow> psc_grid \<Rightarrow> vector \<Rightarrow> vector \<Rightarrow> error + psc_grid" where
  "setup_orientations c g als des =
     and_then (orientation_normals als des) (\<lambda>normals.
       let g1 = update_alphas_deltas c
                  (g\<lparr>alphas := als, deltas := des,
                     coil_normals := map flip_small_negative3 normals\<rparr>);
           L_total = L_matrix c (grid_xyz_all_normalized g1) (alphas_total g1)
                       (deltas_total g1) (quad_points_phi g1) (quad_weights g1)
       in and_then (add_transpose L_total) (\<lambda>L_sym.
          and_then (self_inductance (R g1) (a g1)) (\<lambda>d.
            Inr (g1\<lparr>L := scale_matrix (fill_diagonal L_sym d) (R g1)\<rparr>))))"


section \<open>Fluxes, currents and the coupling matrix\<close>

text \<open>\<^verbatim>\<open>update_psi\<close>. The field on the quadrature disks is reshaped to
  \<^verbatim>\<open>(len(alphas_total), N, N, 3)\<close> with \<open>N\<close> the number of radial quadrature points, which
  numpy refuses when the sizes disagree.\<close>

definition update_psi :: "collab \<Rightarrow> psc_grid \<Rightarrow> error + psc_grid" where
  "update_psi c g =
     (let fg = flux_xyz c (grid_xyz_all g) (alphas_total g) (deltas_total g)
                 (quad_points_rho g) (quad_points_phi g);
          N = length (quad_points_rho g);
          B = B_TF_B c fg
      in if length B \<noteq> length (alphas_total g) * N * N
         then Inl (ValueError ''cannot reshape array'')
         else let pt = flux_integration c B (quad_points_rho g) (coil_normals_all g)
                         (quad_weights g)
              in Inr (g\<lparr>flux_grid := fg, psi_total := pt, psi := take (num_psc g) pt\<rparr>))"

text \<open>\<^verbatim>\<open>x[q * nn: (q + 1) * nn]\<close>.\<close>

definition block :: "nat \<Rightarrow> nat \<Rightarrow> 'a list \<Rightarrow> 'a list" where
  "block q nn xs = take nn (drop (q * nn) xs)"

text \<open>\<^verbatim>\<open>A += K\<close> for two-dimensional arrays of one shape.\<close>

definition mat_add :: "matrix \<Rightarrow> matrix \<Rightarrow> error + matrix" where
  "mat_add A K =
     (if list_all2 (\<lambda>r s. length r = length s) A K then Inr (map2 (map2 (+)) A K)
      else Inl (ValueError ''operands could not be broadcast together''))"

text \<open>The loop of \<^verbatim>\<open>setup_A_matrix\<close>: one kernel call per symmetry block \<open>q\<close>, summed.\<close>

fun A_matrix_loop :: "collab \<Rightarrow> psc_grid \<Rightarrow> nat list \<Rightarrow> matrix \<Rightarrow> error + matrix" where
  "A_matrix_loop c g [] A = Inr A"
| "A_matrix_loop c g (q # qs) A =
     and_then
       (mat_add A
          (A_matrix_simd c (block q (num_psc g) (grid_xyz_all g)) (plasma_points g)
             (block q (num_psc g) (alphas_total g)) (block q (num_psc g) (deltas_total g))
             (plasma_unitnormals g) (R g)))
       (A_matrix_loop c g qs)"

definition setup_A_matrix :: "collab \<Rightarrow> psc_grid \<Rightarrow> error + psc_grid" where
  "setup_A_matrix c g =
     and_then
       (A_matrix_loop c g [0..<nfp g * length (stell_list g)]
          (replicate (nphi g * ntheta g) (replicate (num_psc g) 0)))
       (\<lambda>A. Inr (g\<lparr>A_matrix := map (map (\<lambda>x. 2 * x)) A\<rparr>))"

text \<open>\<^verbatim>\<open>setup_currents_and_fields\<close>: \<^verbatim>\<open>I_all = -L_inv @ psi_total / fac\<close>,
  \<^verbatim>\<open>I = I_all[:num_psc]\<close>, then the coupling matrix and \<^verbatim>\<open>Bn_PSC = A_matrix @ I\<close>.\<close>

definition setup_currents_and_fields :: "collab \<Rightarrow> psc_grid \<Rightarrow> error + psc_grid" where
  "setup_currents_and_fields c g =
     (case linalg_inv c (L g) of
        None \<Rightarrow> Inl LinAlgError
      | Some Li \<Rightarrow>
          and_then (matvec (map (map uminus) Li) (psi_total g)) (\<lambda>v.
            let Ia = map (\<lambda>x. x / fac) v;
                g1 = g\<lparr>L_inv := Li, I_all := Ia, I := take (num_psc g) Ia\<rparr>
            in and_then (setup_A_matrix c g1) (\<lambda>g2.
               and_then (matvec (A_matrix g2) (I g2)) (\<lambda>bn.
                 Inr (g2\<lparr>Bn_PSC := bn\<rparr>)))))"

text \<open>\<^verbatim>\<open>b_vector\<close>: the normal component of the external field on the plasma boundary plus
  the prescribed plasma field, divided by \<open>fac\<close>.\<close>

definition b_vector :: "collab \<Rightarrow> psc_grid \<Rightarrow> error + psc_grid" where
  "b_vector c g =
     and_then (broadcast2 dot3 (B_TF_B c (plasma_points g)) (plasma_unitnormals g)) (\<lambda>Bn_TF.
     and_then (broadcast2 (+) Bn_TF (Bn_plasma g)) (\<lambda>s.
       Inr (g\<lparr>b_opt := map (\<lambda>x. x / fac) s\<rparr>)))"


section \<open>The objective\<close>

text \<open>\<^verbatim>\<open>least_squares(kappas)\<close> returns the loss and leaves the updated object behind.\<close>

definition least_squares :: "collab \<Rightarrow> psc_grid \<Rightarrow> vector \<Rightarrow> error + (real \<times> psc_grid)" where
  "least_squares c g ks =
     and_then (setup_orientations c g (take (num_psc g) ks) (drop (num_psc g) ks)) (\<lambda>g1.
     and_then (update_psi c g1) (\<lambda>g2.
     and_then (setup_currents_and_fields c g2) (\<lambda>g3.
     and_then (broadcast2 (+) (Bn_PSC g3) (b_opt g3)) (\<lambda>s.
     and_then (broadcast2 (*) s (grid_normalization g3)) (\<lambda>Ax_b.
       let BdotN2 = dot (map (\<lambda>x. 0.5 * x) Ax_b) Ax_b * fac2_norm g3
       in Inr (BdotN2, g3\<lparr>BdotN2_list := BdotN2_list g3 @ [BdotN2]\<rparr>))))))"


section \<open>Construction\<close>

text \<open>\<^verbatim>\<open>__init__\<close>: the quadrature rule with eight points. The attributes that the
  constructors assign later start out empty or zero here.\<close>

definition init_grid :: "collab \<Rightarrow> psc_grid" where
  "init_grid c =
     (let (pts, w) = leggauss c 8
      in \<lparr>BdotN2_list = [],
          quad_points_phi = map (\<lambda>x. x * pi + pi) pts,
          quad_weights = w,
          quad_points_rho = map (\<lambda>x. x * 0.5 + 0.5) pts,
          grid_xyz = [], R = 0, a = 0, alphas = [], deltas = [],
          nfp = 0, stellsym = False, nphi = 0, ntheta = 0,
          plasma_unitnormals = [], plasma_points = [], grid_normalization = [],
          Bn_plasma = [], normalization = 0, fac2_norm = 0,
          coil_normals = [], grid_xyz_all = [], grid_xyz_all_normalized = [],
          coil_normals_all = [], alphas_total = [], deltas_total = [],
          aaprime_aa = [], aaprime_dd = [], ddprime_dd = [], ddprime_aa = [],
          L = [], flux_grid = [], psi_total = [], psi = [], L_inv = [],
          I_all = [], I = [], A_matrix = [], Bn_PSC = [], b_opt = [], kappas = []\<rparr>)"

text \<open>\<^verbatim>\<open>np.allclose(Bn_plasma.shape, (nphi, ntheta))\<close> for a two-dimensional array of shape
  \<open>(r, k)\<close>: \<open>|x - y| \<le> 1e-8 + 1e-5 * |y|\<close> in both positions.\<close>

definition shape_allclose :: "nat \<times> nat \<Rightarrow> nat \<times> nat \<Rightarrow> bool" where
  "shape_allclose = (\<lambda>(r, k) (n, m).
     \<bar>real r - real n\<bar> \<le> 1 / 10 ^ 8 + (1 / 10 ^ 5) * real n \<and>
     \<bar>real k - real m\<bar> \<le> 1 / 10 ^ 8 + (1 / 10 ^ 5) * real m)"

text \<open>The plasma boundary data, read the same way by both constructors. The plasma field
  \<^verbatim>\<open>Bn_plasma\<close> is an optional keyword: its shape and its flattened entries, zeros of shape
  \<^verbatim>\<open>(nphi, ntheta)\<close> when absent.\<close>

definition setup_plasma_boundary ::
  "surface \<Rightarrow> (nat \<times> nat \<times> vector) option \<Rightarrow> psc_grid \<Rightarrow> error + psc_grid" where
  "setup_plasma_boundary s bn g =
     (let n_phi = length (quadpoints_phi s);
          n_theta = length (quadpoints_theta s);
          Ngrid = n_phi * n_theta;
          Nnorms = map (\<lambda>v. sqrt (sumsq3 v)) (normal s);
          (r, k, vals) = (case bn of None \<Rightarrow> (n_phi, n_theta, replicate (n_phi * n_theta) 0)
                          | Some b \<Rightarrow> b)
      in if Ngrid = 0 \<and> Nnorms \<noteq> [] then Inl NonFinite
         else if \<not> shape_allclose (r, k) (n_phi, n_theta)
         then Inl (ValueError ''Plasma magnetic field surface data is incorrect shape.'')
         else Inr (g\<lparr>nfp := s_nfp s, stellsym := s_stellsym s, nphi := n_phi, ntheta := n_theta,
                     plasma_unitnormals := unitnormal s, plasma_points := gamma s,
                     grid_normalization := map (\<lambda>x. sqrt (x / real Ngrid)) Nnorms,
                     Bn_plasma := vals\<rparr>))"

text \<open>The check that both constructors make against the planes \<open>phi0 = 2 pi i / nfp\<close>:
  a center conflicts with plane \<open>i\<close> when \<open>|arctan2(y, x) - phi0[i]| < arctan2(R, sqrt(x^2 + y^2))\<close>;
  for each plane the first conflicting index is recorded, and any record is fatal.\<close>

definition plane_conflict :: "nat \<Rightarrow> real \<Rightarrow> nat \<Rightarrow> vec3 \<Rightarrow> bool" where
  "plane_conflict n r0 i = (\<lambda>(x, y, z).
     \<bar>arctan2 y x - 2 * pi / real n * real i\<bar> < arctan2 r0 (sqrt (x ^ 2 + y ^ 2)))"

definition bad_indices :: "nat \<Rightarrow> real \<Rightarrow> vec3 list \<Rightarrow> nat list" where
  "bad_indices n r0 ps =
     concat (map (\<lambda>i. take 1 (filter (\<lambda>k. plane_conflict n r0 i (ps ! k)) [0..<length ps]))
               [0..<n])"

definition check_symmetry_planes :: "nat \<Rightarrow> real \<Rightarrow> vec3 list \<Rightarrow> error + unit" where
  "check_symmetry_planes n r0 ps =
     (if n = 0 then Inl ZeroDivisionError
      else if bad_indices n r0 ps \<noteq> []
      then Inl (ValueError ''The PSC coils are initialized such that they may intersect with a discrete symmetry plane'')
      else Inr ())"

text \<open>The pairwise check of \<^verbatim>\<open>geo_setup_between_toroidal_surfaces\<close>:
  \<^verbatim>\<open>dij < 2.0 * R\<close> for some \<open>i < j\<close> is fatal.\<close>

definition dist3 :: "vec3 \<Rightarrow> vec3 \<Rightarrow> real" where
  "dist3 p q = sqrt (sumsq3 (sub3 p q))"

definition check_coil_distances :: "real \<Rightarrow> vec3 list \<Rightarrow> error + unit" where
  "check_coil_distances r0 ps =
     (if list_ex (\<lambda>i. list_ex (\<lambda>j. dist3 (ps ! i) (ps ! j) < 2 * r0) [i + 1..<length ps])
           [0..<length ps]
      then Inl (ValueError ''There is a PSC coil initialized such that it is within a diameter of another PSC coil.'')
      else Inr ())"

text \<open>The normalization of the objective: \<^verbatim>\<open>normalization = B_axis ** 2 * area\<close>,
  \<^verbatim>\<open>fac2_norm = fac ** 2 / normalization\<close>.\<close>

definition setup_normalization :: "collab \<Rightarrow> surface \<Rightarrow> psc_grid \<Rightarrow> error + psc_grid" where
  "setup_normalization c s g =
     (let B_axis = calculate_on_axis_B c s;
          nrm = B_axis ^ 2 * area s
      in if nrm = 0 then Inl NonFinite
         else Inr (g\<lparr>normalization := nrm, fac2_norm := fac ^ 2 / nrm\<rparr>))"

text \<open>\<^verbatim>\<open>np.ravel(np.array([alphas, deltas]))\<close>.\<close>

definition ravel2 :: "vector \<Rightarrow> vector \<Rightarrow> error + vector" where
  "ravel2 xs ys =
     (if length xs = length ys then Inr (xs @ ys)
      else Inl (ValueError ''setting an array element with a sequence''))"

text \<open>The common tail of both constructors, from \<^verbatim>\<open>setup_full_grid()\<close> to the assignment
  of \<^verbatim>\<open>kappas\<close>. The calls \<^verbatim>\<open>setup_curves()\<close> and \<^verbatim>\<open>plot_curves()\<close> in between only build
  curve objects and write files; no attribute of the record is assigned by them.\<close>

definition finish_setup :: "collab \<Rightarrow> psc_grid \<Rightarrow> error + psc_grid" where
  "finish_setup c g =
     and_then (setup_full_grid c g) (\<lambda>g1.
     and_then (setup_orientations c g1 (alphas g1) (deltas g1)) (\<lambda>g2.
     and_then (update_psi c g2) (\<lambda>g3.
     and_then (setup_currents_and_fields c g3) (\<lambda>g4.
     and_then (b_vector c g4) (\<lambda>g5.
     and_then (ravel2 (alphas g5) (deltas g5)) (\<lambda>k.
       Inr (g5\<lparr>kappas := k\<rparr>)))))))"

subsection \<open>Explicit center points\<close>

record manual_kwargs =
  kw_a :: "real option"
  kw_alphas :: "vector option"
  kw_deltas :: "vector option"
  kw_plasma_boundary :: "surface option"
  kw_Bn_plasma :: "(nat \<times> nat \<times> vector) option"
  kw_interpolated_field :: bool

text \<open>\<^verbatim>\<open>kwargs.pop("plasma_boundary", default_surf)\<close>, the default being the surface from
  the file with \<^verbatim>\<open>nfp = 1\<close> and \<^verbatim>\<open>stellsym = False\<close> assigned.\<close>

definition manual_plasma_boundary :: "collab \<Rightarrow> manual_kwargs \<Rightarrow> surface" where
  "manual_plasma_boundary c kw =
     (case kw_plasma_boundary kw of
        None \<Rightarrow> (default_surf c)\<lparr>s_nfp := 1, s_stellsym := False\<rparr>
      | Some v \<Rightarrow> v)"

text \<open>\<^verbatim>\<open>geo_setup_manual(points, R, **kwargs)\<close>. With \<^verbatim>\<open>interpolated_field\<close> set, the range of
  the interpolation takes \<^verbatim>\<open>np.max\<close> over the centers, which fails on an empty array; the
  interpolant itself is overwritten by the plain field before it is used.\<close>

definition geo_setup_manual ::
  "collab \<Rightarrow> vec3 list \<Rightarrow> real \<Rightarrow> manual_kwargs \<Rightarrow> error + psc_grid" where
  "geo_setup_manual c points r0 kw =
     (let g0 = init_grid c;
          n = length points;
          g1 = g0\<lparr>grid_xyz := points, R := r0,
                  a := (case kw_a kw of None \<Rightarrow> r0 / 100 | Some v \<Rightarrow> v),
                  alphas := (case kw_alphas kw of
                               None \<Rightarrow> map (\<lambda>u. (u - 0.5) * pi) (random_rand c 0 n)
                             | Some v \<Rightarrow> v),
                  deltas := (case kw_deltas kw of
                               None \<Rightarrow> map (\<lambda>u. (u - 0.5) * 2 * pi) (random_rand c 1 n)
                             | Some v \<Rightarrow> v),
                  quad_points_rho := map (\<lambda>x. x * r0) (quad_points_rho g0)\<rparr>;
          s = manual_plasma_boundary c kw
      in and_then (setup_plasma_boundary s (kw_Bn_plasma kw) g1) (\<lambda>g2.
         and_then (check_symmetry_planes (nfp g2) (R g2) (grid_xyz g2)) (\<lambda>u.
         and_then (if kw_interpolated_field kw \<and> points = []
                   then Inl (ValueError ''zero-size array to reduction operation maximum'')
                   else Inr ()) (\<lambda>u.
         and_then (setup_normalization c s g2) (\<lambda>g3.
         and_then (orientation_normals (alphas g3) (deltas g3)) (\<lambda>normals.
           finish_setup c (g3\<lparr>coil_normals := map flip_small_negative3 normals\<rparr>)))))))"

subsection \<open>Centers on a grid between two toroidal surfaces\<close>

definition max_list :: "real list \<Rightarrow> real" where
  "max_list xs = fold max (tl xs) (hd xs)"

definition min_list :: "real list \<Rightarrow> real" where
  "min_list xs = fold min (tl xs) (hd xs)"

text \<open>\<^verbatim>\<open>np.linspace(lo, hi, n, endpoint=True)\<close>.\<close>

definition linspace :: "real \<Rightarrow> real \<Rightarrow> int \<Rightarrow> vector" where
  "linspace lo hi n =
     map (\<lambda>k. lo + real k * ((hi - lo) / real_of_int (n - 1))) [0..<nat n]"

text \<open>The test of \<^verbatim>\<open>_setup_uniform_grid\<close> that throws a grid point out of the sector, for
  \<open>nfp\<close> 2, 3 or 4; for any other \<open>nfp > 1\<close> the variable \<^verbatim>\<open>phi2\<close> is never assigned.\<close>

definition outside_sector :: "nat \<Rightarrow> real \<Rightarrow> real \<Rightarrow> real \<Rightarrow> real \<Rightarrow> bool" where
  "outside_sector n r0 rc x y =
     (let phi = arctan2 y x;
          phi2 = (if n = 4 then arctan2 r0 x
                  else if n = 3 then arctan2 (y + r0) (x - r0) - phi
                  else arctan2 r0 rc)
      in phi \<ge> pi / real n - phi2 \<or> phi < 0)"

text \<open>\<^verbatim>\<open>_setup_uniform_grid\<close>, as a function of \<open>nfp\<close>, \<^verbatim>\<open>plasma_boundary.get_rc(0, 0)\<close>, the
  points of the outer surface, the grid resolution and \<^verbatim>\<open>poff\<close>; it yields the radii \<open>R\<close>
  and \<open>a\<close> and the array \<^verbatim>\<open>xyz_uniform\<close>. A resolution of one divides by zero.\<close>

definition setup_uniform_grid ::
  "nat \<Rightarrow> real \<Rightarrow> vec3 list \<Rightarrow> int \<Rightarrow> int \<Rightarrow> int \<Rightarrow> real \<Rightarrow> error + (real \<times> real \<times> vec3 list)" where
  "setup_uniform_grid n rc xyz_outer Nx Ny Nz p_off =
     (if xyz_outer = []
      then Inl (ValueError ''zero-size array to reduction operation maximum which has no identity'')
      else
        let x_outer = map (\<lambda>(x, y, z). x) xyz_outer;
            y_outer = map (\<lambda>(x, y, z). y) xyz_outer;
            z_outer = map (\<lambda>(x, y, z). z) xyz_outer;
            x_max = max_list x_outer; x_min = min_list x_outer;
            y_max = max_list y_outer; y_min = min_list y_outer;
            z_max0 = max_list z_outer; z_min = min_list z_outer;
            z_max = max z_max0 \<bar>z_min\<bar>
        in if Nx = 1 \<or> Ny = 1 \<or> Nz = 1 then Inl NonFinite
           else
             let dx = (x_max - x_min) / real_of_int (Nx - 1);
                 dy = (y_max - y_min) / real_of_int (Ny - 1);
                 dz = 2 * z_max / real_of_int (Nz - 1);
                 Nmin = min dx (min dy dz);
                 r0 = (if n = 2 then Nmin / 2.5
                       else if n = 3 then min (Nmin / 2.0) (p_off / 3.0)
                       else p_off / 2.5);
                 a0 = r0 / 100.0;
                 X = (if n > 1 then linspace (dx / 2.0 + x_min) (x_max - dx / 2.0) Nx
                      else linspace x_min x_max Nx);
                 Y = (if n > 1 then linspace (dy / 2.0 + y_min) (y_max - dy / 2.0) Ny
                      else linspace y_min y_max Ny);
                 Z = linspace (- z_max) z_max Nz;
                 xyz_uniform = concat (map (\<lambda>x. concat (map (\<lambda>y. map (\<lambda>z. (x, y, z)) Z) Y)) X)
             in if n > 1
                then (if n \<noteq> 2 \<and> n \<noteq> 3 \<and> n \<noteq> 4 \<and> xyz_uniform \<noteq> [] then Inl UnboundLocalError
                      else Inr (r0, a0,
                              filter (\<lambda>(x, y, z). \<not> outside_sector n r0 rc x y) xyz_uniform))
                else Inr (r0, a0, xyz_uniform))"

text \<open>The first index of the least entry, \<^verbatim>\<open>np.argmin\<close>.\<close>

definition argmin :: "real list \<Rightarrow> nat" where
  "argmin xs =
     fst (fold (\<lambda>(i, v) (bi, bv). if v < bv then (i, v) else (bi, bv))
            (zip [0..<length xs] xs) (0, hd xs))"

fun collect :: "(error + 'a) list \<Rightarrow> error + 'a list" where
  "collect [] = Inr []"
| "collect (r # rs) = and_then r (\<lambda>v. and_then (collect rs) (\<lambda>vs. Inr (v # vs)))"

text \<open>\<^verbatim>\<open>deltas = np.arctan2(n[:, 0], n[:, 2])\<close>, \<^verbatim>\<open>alphas = -np.arcsin(n[:, 1])\<close>.\<close>

definition normals_to_angles :: "vec3 list \<Rightarrow> error + (vector \<times> vector)" where
  "normals_to_angles ns =
     (if list_ex (\<lambda>(x, y, z). \<bar>y\<bar> > 1) ns then Inl NonFinite
      else Inr (map (\<lambda>(x, y, z). - arcsin y) ns, map (\<lambda>(x, y, z). arctan2 x z) ns))"

definition nearest_plasma_normal :: "vec3 list \<Rightarrow> vec3 list \<Rightarrow> vec3 \<Rightarrow> error + vec3" where
  "nearest_plasma_normal pp pn p =
     (if pp = [] then Inl (ValueError ''attempt to get argmin of an empty sequence'')
      else let k = argmin (map (\<lambda>q. sumsq3 (sub3 p q)) pp)
           in if k < length pn then Inr (pn ! k) else Inl IndexError)"

definition unit3 :: "vec3 \<Rightarrow> error + vec3" where
  "unit3 = (\<lambda>(x, y, z).
     let nrm = sqrt (sumsq3 (x, y, z))
     in if nrm = 0 then Inl NonFinite else Inr (x / nrm, y / nrm, z / nrm))"

text \<open>The four initializations of the orientations in
  \<^verbatim>\<open>geo_setup_between_toroidal_surfaces\<close>, chosen by the keyword \<^verbatim>\<open>initialization\<close>.\<close>

definition initial_orientation :: "collab \<Rightarrow> string \<Rightarrow> psc_grid \<Rightarrow> error + psc_grid" where
  "initial_orientation c ini g =
     (let n = num_psc g
      in if ini = ''random''
         then (let als = map (\<lambda>u. (u - 0.5) * pi) (random_rand c 0 n);
                   des = map (\<lambda>u. (u - 0.5) * 2 * pi) (random_rand c 1 n)
               in and_then (orientation_normals als des) (\<lambda>ns.
                    Inr (g\<lparr>alphas := als, deltas := des, coil_normals := ns\<rparr>)))
         else if ini = ''plasma''
         then and_then (collect (map (nearest_plasma_normal (plasma_points g)
                                        (plasma_unitnormals g)) (grid_xyz g))) (\<lambda>ns.
              and_then (normals_to_angles ns) (\<lambda>(als, des).
                Inr (g\<lparr>coil_normals := ns, deltas := des, alphas := als\<rparr>)))
         else if ini = ''TF''
         then and_then (collect (map unit3 (B_TF_B c (grid_xyz g)))) (\<lambda>ns.
              and_then (normals_to_angles ns) (\<lambda>(als, des).
                Inr (g\<lparr>coil_normals := ns, deltas := des, alphas := als\<rparr>)))
         else (let als = replicate n 0; des = replicate n 0
               in and_then (orientation_normals als des) (\<lambda>ns.
                    Inr (g\<lparr>alphas := als, deltas := des, coil_normals := ns\<rparr>))))"

record grid_kwargs =
  gk_Nx :: "int option"
  gk_Ny :: "int option"
  gk_Nz :: "int option"
  gk_poff :: "real option"
  gk_Bn_plasma :: "(nat \<times> nat \<times> vector) option"
  gk_initialization :: "string option"

text \<open>\<^verbatim>\<open>geo_setup_between_toroidal_surfaces(plasma_boundary, coils_TF, inner_toroidal_surface,
  outer_toroidal_surface, **kwargs)\<close>, in two parts. The first part runs up to the fix-up of
  the initial normals: the plasma boundary, the grid resolution, the uniform grid and the
  radii, the cells kept between the two surfaces, the normalization and the initial
  orientation.\<close>

definition grid_stage ::
  "collab \<Rightarrow> surface \<Rightarrow> surface \<Rightarrow> surface \<Rightarrow> grid_kwargs \<Rightarrow> error + psc_grid" where
  "grid_stage c pb inner outer kw =
     and_then (setup_plasma_boundary pb (gk_Bn_plasma kw) (init_grid c)) (\<lambda>g1.
       let Nx = (case gk_Nx kw of None \<Rightarrow> 10 | Some v \<Rightarrow> v);
           Ny = (case gk_Ny kw of None \<Rightarrow> Nx | Some v \<Rightarrow> v);
           Nz = (case gk_Nz kw of None \<Rightarrow> Nx | Some v \<Rightarrow> v);
           p_off = (case gk_poff kw of None \<Rightarrow> 100 | Some v \<Rightarrow> v)
       in if Nx \<le> 0 \<or> Ny \<le> 0 \<or> Nz \<le> 0
          then Inl (ValueError ''Nx, Ny, and Nz should be positive integers'')
          else
            and_then (setup_uniform_grid (nfp g1) (rc00 pb) (gamma outer) Nx Ny Nz p_off)
              (\<lambda>(r0, a0, xyz_uniform).
                let cells = define_grid c (unitnormal inner) (unitnormal outer) xyz_uniform
                              (gamma inner) (gamma outer);
                    g2 = g1\<lparr>R := r0, a := a0,
                            grid_xyz := filter (\<lambda>p. p \<noteq> (0, 0, 0)) cells,
                            quad_points_rho := map (\<lambda>x. x * r0) (quad_points_rho g1)\<rparr>
                in and_then (setup_normalization c pb g2) (\<lambda>g3.
                   and_then (initial_orientation c
                               (case gk_initialization kw of None \<Rightarrow> ''zeros'' | Some v \<Rightarrow> v) g3)
                     (\<lambda>g4.
                   Inr (g4\<lparr>coil_normals := map flip_small_negative3 (coil_normals g4)\<rparr>)))))"

text \<open>The second part: the check against the symmetry planes, the pairwise distance check,
  and the common tail.\<close>

definition geo_setup_between_toroidal_surfaces ::
  "collab \<Rightarrow> surface \<Rightarrow> surface \<Rightarrow> surface \<Rightarrow> grid_kwargs \<Rightarrow> error + psc_grid" where
  "geo_setup_between_toroidal_surfaces c pb inner outer kw =
     and_then (grid_stage c pb inner outer kw) (\<lambda>g5.
     and_then (check_symmetry_planes (nfp g5) (R g5) (grid_xyz g5)) (\<lambda>u.
     and_then (check_coil_distances (R g5) (grid_xyz g5)) (\<lambda>u.
       finish_setup c g5)))"


section \<open>A run of the optimizer\<close>

text \<open>
  After construction the optimizer calls \<^verbatim>\<open>least_squares\<close> and \<^verbatim>\<open>least_squares_jacobian\<close>
  on the object, in any order. \<^verbatim>\<open>least_squares_jacobian(kappas)\<close> begins with the same three
  updates as \<^verbatim>\<open>least_squares\<close>; what follows them only reads the object to assemble the
  gradient, so its effect on the object is that of the three updates.
\<close>

datatype call = Evaluate vector | Gradient vector

definition jacobian_updates :: "collab \<Rightarrow> psc_grid \<Rightarrow> vector \<Rightarrow> error + psc_grid" where
  "jacobian_updates c g ks =
     and_then (setup_orientations c g (take (num_psc g) ks) (drop (num_psc g) ks)) (\<lambda>g1.
     and_then (update_psi c g1) (\<lambda>g2.
       setup_currents_and_fields c g2))"

fun run :: "collab \<Rightarrow> psc_grid \<Rightarrow> call list \<Rightarrow> error + psc_grid" where
  "run c g [] = Inr g"
| "run c g (Evaluate ks # cs) = and_then (least_squares c g ks) (\<lambda>(v, g'). run c g' cs)"
| "run c g (Gradient ks # cs) = and_then (jacobian_updates c g ks) (\<lambda>g'. run c g' cs)"


section \<open>Auxiliary notions for the proofs\<close>

text \<open>The object an orientation update works on once the normals are computed: the
  angles and fixed-up normals stored and the symmetry expansion redone.\<close>

definition oriented :: "collab \<Rightarrow> psc_grid \<Rightarrow> vector \<Rightarrow> vector \<Rightarrow> vec3 list \<Rightarrow> psc_grid" where
  "oriented c g als des normals =
     update_alphas_deltas c
       (g\<lparr>alphas := als, deltas := des, coil_normals := map flip_small_negative3 normals\<rparr>)"

definition rectangular :: "nat \<Rightarrow> nat \<Rightarrow> matrix \<Rightarrow> bool" where
  "rectangular r k M = (length M = r \<and> (\<forall>row \<in> set M. length row = k))"

text \<open>Collaborators that return arrays of the shapes the engine expects: one angle per
  expanded coil, a square inductance kernel, one field vector per point, one flux per coil,
  a coupling kernel with a row per plasma point and a column per coil, an inverse of the
  shape of its argument.\<close>

definition shapes_ok :: "collab \<Rightarrow> bool" where
  "shapes_ok c =
     ((\<forall>ns n s. length (fst (angles_xsimd c ns n s)) = length ns * n * (s + 1)) \<and>
      (\<forall>xyz al de qp qw. rectangular (length al) (length al) (L_matrix c xyz al de qp qw)) \<and>
      (\<forall>xyz al de qr qp.
          length (flux_xyz c xyz al de qr qp) = length al * length qr * length qr) \<and>
      (\<forall>ps. length (B_TF_B c ps) = length ps) \<and>
      (\<forall>B qr ns qw. length (flux_integration c B qr ns qw) = length ns) \<and>
      (\<forall>xyz pp al de pn r.
          rectangular (length pp) (length xyz) (A_matrix_simd c xyz pp al de pn r)) \<and>
      (\<forall>M Mi. linalg_inv c M = Some Mi \<longrightarrow> rectangular (length M) (length M) Mi))"

text \<open>\<open>Mi\<close> is a right inverse of the square matrix \<open>M\<close>: the product \<open>M Mi\<close> is the
  identity.\<close>

definition right_inverse :: "matrix \<Rightarrow> matrix \<Rightarrow> bool" where
  "right_inverse M Mi =
     (rectangular (length M) (length M) M \<and> rectangular (length M) (length M) Mi \<and>
      (\<forall>i < length M. \<forall>j < length M.
          (\<Sum>k < length M. M ! i ! k * Mi ! k ! j) = (if i = j then 1 else 0)))"

text \<open>Every derived attribute agrees with the angles the object holds: the normals with
  the angles, the expanded normals and angles with the normals, the inductance matrix with
  the expanded angles, the fluxes with the external field on the expanded coils, the currents
  with the inverse and the fluxes, the coupling matrix with the expanded coils and the
  normal field of the coils with the coupling matrix and the currents.\<close>

definition recomputed :: "collab \<Rightarrow> psc_grid \<Rightarrow> bool" where
  "recomputed c g =
     (coil_normals g = map flip_small_negative3 (map2 coil_normal (alphas g) (deltas g)) \<and>
      coil_normals_all g =
        expanded_normals_xsimd (coil_normals g) (nfp g) (if stellsym g then 1 else 0) \<and>
      (alphas_total g, deltas_total g, aaprime_aa g, aaprime_dd g, ddprime_dd g, ddprime_aa g) =
        angles_xsimd c (coil_normals g) (nfp g) (if stellsym g then 1 else 0) \<and>
      (\<exists>S d. add_transpose (L_matrix c (grid_xyz_all_normalized g) (alphas_total g)
                 (deltas_total g) (quad_points_phi g) (quad_weights g)) = Inr S \<and>
             self_inductance (R g) (a g) = Inr d \<and>
             L g = scale_matrix (fill_diagonal S d) (R g)) \<and>
      flux_grid g = flux_xyz c (grid_xyz_all g) (alphas_total g) (deltas_total g)
                      (quad_points_rho g) (quad_points_phi g) \<and>
      psi_total g = flux_integration c (B_TF_B c (flux_grid g)) (quad_points_rho g)
                      (coil_normals_all g) (quad_weights g) \<and>
      psi g = take (num_psc g) (psi_total g) \<and>
      linalg_inv c (L g) = Some (L_inv g) \<and>
      (\<exists>v. matvec (map (map uminus) (L_inv g)) (psi_total g) = Inr v \<and>
           I_all g = map (\<lambda>x. x / fac) v) \<and>
      I g = take (num_psc g) (I_all g) \<and>
      (\<exists>A. A_matrix_loop c g [0..<nfp g * length (stell_list g)]
             (replicate (nphi g * ntheta g) (replicate (num_psc g) 0)) = Inr A \<and>
           A_matrix g = map (map (\<lambda>x. 2 * x)) A) \<and>
      matvec (A_matrix g) (I g) = Inr (Bn_PSC g))"

text \<open>The object \<^verbatim>\<open>geo_setup_manual\<close> has assembled before it reads the plasma boundary.\<close>

definition manual_start :: "collab \<Rightarrow> vec3 list \<Rightarrow> real \<Rightarrow> manual_kwargs \<Rightarrow> psc_grid" where
  "manual_start c points r0 kw =
     (init_grid c)\<lparr>grid_xyz := points, R := r0,
        a := (case kw_a kw of None \<Rightarrow> r0 / 100 | Some v \<Rightarrow> v),
        alphas := (case kw_alphas kw of
                     None \<Rightarrow> map (\<lambda>u. (u - 0.5) * pi) (random_rand c 0 (length points))
                   | Some v \<Rightarrow> v),
        deltas := (case kw_deltas kw of
                     None \<Rightarrow> map (\<lambda>u. (u - 0.5) * 2 * pi) (random_rand c 1 (length points))
                   | Some v \<Rightarrow> v),
        quad_points_rho := map (\<lambda>x. x * r0) (quad_points_rho (init_grid c))\<rparr>"


section \<open>A concrete run\<close>

text \<open>
  A small configuration on which every operation can be carried out: a plasma boundary
  sampled at one point, a uniform unit field along z as the external field, and kernels
  that return arrays of the right shapes with no mutual coupling, so that the inductance
  matrix is diagonal and its inverse is the entrywise reciprocal. Of a uniform grid the first
  two cells count as lying between the two surfaces; the others come back zeroed.
\<close>

definition demo_surface :: surface where
  "demo_surface = \<lparr>s_nfp = 1, s_stellsym = False, quadpoints_phi = [0], quadpoints_theta = [0],
     unitnormal = [(1, 0, 0)], gamma = [(2, 0, 0)], normal = [(1, 0, 0)], area = 1, rc00 = 2\<rparr>"

definition demo_collab :: collab where
  "demo_collab =
     \<lparr>angles_xsimd = (\<lambda>ns n s. let z = replicate (length ns * n * (s + 1)) 0 in (z, z, z, z, z, z)),
      L_matrix = (\<lambda>xyz al de qp qw. replicate (length al) (replicate (length al) 0)),
      flux_xyz = (\<lambda>xyz al de qr qp. replicate (length al * length qr * length qr) (0, 0, 0)),
      flux_integration = (\<lambda>B qr ns qw. map (\<lambda>(x, y, z). z) ns),
      A_matrix_simd = (\<lambda>xyz pp al de pn r. replicate (length pp) (replicate (length xyz) 0)),
      B_TF_B = map (\<lambda>p. (0, 0, 1)),
      linalg_inv = (\<lambda>M. if is_square M
                         then Some (map (map (\<lambda>x. if x = 0 then 0 else 1 / x)) M)
                         else None),
      leggauss = (\<lambda>n. (replicate n 0, replicate n (2 / real n))),
      calculate_on_axis_B = (\<lambda>s. 1),
      define_grid = (\<lambda>ni no xyz xi xo. take 2 xyz @ replicate (length xyz - 2) (0, 0, 0)),
      random_rand = (\<lambda>k n. replicate n (1 / 2)),
      default_surf = demo_surface\<rparr>"

definition demo_kwargs :: manual_kwargs where
  "demo_kwargs = \<lparr>kw_a = None, kw_alphas = Some [0], kw_deltas = Some [0],
     kw_plasma_boundary = None, kw_Bn_plasma = None, kw_interpolated_field = False\<rparr>"

text \<open>One coil of radius 1/10 centered at (0, 1, 0), built by \<^verbatim>\<open>geo_setup_manual\<close>.\<close>

definition demo_grid :: psc_grid where
  "demo_grid = projr (geo_setup_manual demo_collab [(0, 1, 0)] (1 / 10) demo_kwargs)"

text \<open>The same coil after an orientation update with both angles zero and the flux
  update that follows it, and the value on the diagonal of its inductance matrix.\<close>

definition demo_fluxed :: psc_grid where
  "demo_fluxed =
     projr (update_psi demo_collab (projr (setup_orientations demo_collab demo_grid [0] [0])))"

definition demo_d :: real where
  "demo_d = (ln 800 - 2) * 4 * pi * (1 / 10)"

text \<open>For the grid mode: an outer surface sampled at two opposite corners of a box, a
  resolution of two points per axis and a chosen \<^verbatim>\<open>poff\<close>.\<close>

definition demo_outer :: surface where
  "demo_outer = demo_surface\<lparr>gamma := [(1, 3, - 5), (2, 4, 5)]\<rparr>"

definition demo_grid_kwargs :: "real \<Rightarrow> grid_kwargs" where
  "demo_grid_kwargs p = \<lparr>gk_Nx = Some 2, gk_Ny = None, gk_Nz = None, gk_poff = Some p,
     gk_Bn_plasma = None, gk_initialization = None\<rparr>"


section \<open>Basic facts about the operations\<close>

lemma and_then_Inl [simp]: "and_then (Inl e) f = Inl e"
  by (simp add: and_then_def)

lemma and_then_Inr [simp]: "and_then (Inr v) f = f v"
  by (simp add: and_then_def)

lemma and_then_eq_Inr: "and_then r f = Inr y \<longleftrightarrow> (\<exists>v. r = Inr v \<and> f v = Inr y)"
  by (cases r) simp_all

lemma returns_Inr [simp]: "returns (Inr v)"
  by (simp add: returns_def)

lemma returns_Inl [simp]: "\<not> returns (Inl e)"
  by (simp add: returns_def)

lemma returns_projr: "returns r \<Longrightarrow> r = Inr (projr r)"
  by (cases r) simp_all

lemma returns_and_then:
  "returns (and_then r f) \<longleftrightarrow> (\<exists>v. r = Inr v \<and> returns (f v))"
  by (cases r) simp_all

lemma update_alphas_deltas_fields [simp]:
  "R (update_alphas_deltas c g) = R g"
  "a (update_alphas_deltas c g) = a g"
  "grid_xyz (update_alphas_deltas c g) = grid_xyz g"
  "coil_normals (update_alphas_deltas c g) = coil_normals g"
  "nfp (update_alphas_deltas c g) = nfp g"
  "stellsym (update_alphas_deltas c g) = stellsym g"
  "grid_xyz_all (update_alphas_deltas c g) = grid_xyz_all g"
  "grid_xyz_all_normalized (update_alphas_deltas c g) = grid_xyz_all_normalized g"
  "quad_points_phi (update_alphas_deltas c g) = quad_points_phi g"
  "quad_weights (update_alphas_deltas c g) = quad_weights g"
  "quad_points_rho (update_alphas_deltas c g) = quad_points_rho g"
  "alphas (update_alphas_deltas c g) = alphas g"
  "deltas (update_alphas_deltas c g) = deltas g"
  "nphi (update_alphas_deltas c g) = nphi g"
  "ntheta (update_alphas_deltas c g) = ntheta g"
  "plasma_points (update_alphas_deltas c g) = plasma_points g"
  "plasma_unitnormals (update_alphas_deltas c g) = plasma_unitnormals g"
  "grid_normalization (update_alphas_deltas c g) = grid_normalization g"
  "b_opt (update_alphas_deltas c g) = b_opt g"
  "Bn_plasma (update_alphas_deltas c g) = Bn_plasma g"
  "fac2_norm (update_alphas_deltas c g) = fac2_norm g"
  "normalization (update_alphas_deltas c g) = normalization g"
  "BdotN2_list (update_alphas_deltas c g) = BdotN2_list g"
  "coil_normals_all (update_alphas_deltas c g) =
     expanded_normals_xsimd (coil_normals g) (nfp g) (if stellsym g then 1 else 0)"
  "alphas_total (update_alphas_deltas c g) =
     fst (angles_xsimd c (coil_normals g) (nfp g) (if stellsym g then 1 else 0))"
  "deltas_total (update_alphas_deltas c g) =
     fst (snd (angles_xsimd c (coil_normals g) (nfp g) (if stellsym g then 1 else 0)))"
  by (simp_all add: update_alphas_deltas_def Let_def split: prod.splits)

lemma num_psc_update_alphas_deltas [simp]:
  "num_psc (update_alphas_deltas c g) = num_psc g"
  by (simp add: num_psc_def)

lemma setup_orientations_InrD:
  assumes "setup_orientations c g als des = Inr g'"
  obtains normals L_sym d where
    "orientation_normals als des = Inr normals"
    "add_transpose (L_matrix c (grid_xyz_all_normalized g)
        (alphas_total (oriented c g als des normals))
        (deltas_total (oriented c g als des normals))
        (quad_points_phi g) (quad_weights g)) = Inr L_sym"
    "self_inductance (R g) (a g) = Inr d"
    "g' = (oriented c g als des normals)\<lparr>L := scale_matrix (fill_diagonal L_sym d) (R g)\<rparr>"
  using assms unfolding setup_orientations_def oriented_def
  by (auto simp: and_then_eq_Inr Let_def)

lemma setup_orientations_fields:
  assumes "setup_orientations c g als des = Inr g'"
  shows "R g' = R g" "a g' = a g" "grid_xyz g' = grid_xyz g" "nfp g' = nfp g"
    "stellsym g' = stellsym g" "alphas g' = als" "deltas g' = des"
    "grid_xyz_all g' = grid_xyz_all g" "num_psc g' = num_psc g"
    "nphi g' = nphi g" "ntheta g' = ntheta g" "plasma_points g' = plasma_points g"
    "plasma_unitnormals g' = plasma_unitnormals g"
    "grid_normalization g' = grid_normalization g" "b_opt g' = b_opt g"
    "fac2_norm g' = fac2_norm g" "quad_points_rho g' = quad_points_rho g"
    "BdotN2_list g' = BdotN2_list g" "Bn_plasma g' = Bn_plasma g"
  using assms by (auto elim!: setup_orientations_InrD simp: oriented_def num_psc_def)

lemma add_transpose_InrD:
  assumes "add_transpose M = Inr S"
  shows "is_square M" "length S = length M"
    "\<And>i. i < length M \<Longrightarrow> length (S ! i) = length M"
    "\<And>i j. i < length M \<Longrightarrow> j < length M \<Longrightarrow> S ! i ! j = M ! i ! j + M ! j ! i"
  using assms by (auto simp: add_transpose_def split: if_splits)

lemma fill_diagonal_nth:
  "i < length M \<Longrightarrow> fill_diagonal M d ! i = (M ! i)[i := d]"
  by (simp add: fill_diagonal_def)

lemma length_fill_diagonal [simp]: "length (fill_diagonal M d) = length M"
  by (simp add: fill_diagonal_def)

lemma length_scale_matrix [simp]: "length (scale_matrix M s) = length M"
  by (simp add: scale_matrix_def)

lemma scale_matrix_nth:
  "i < length M \<Longrightarrow> scale_matrix M s ! i = map (\<lambda>x. x * s) (M ! i)"
  by (simp add: scale_matrix_def)

lemma inductance_entry:
  assumes "add_transpose M = Inr S" "i < length M" "j < length M"
  shows "scale_matrix (fill_diagonal S d) r ! i ! j =
           (if i = j then d * r else (M ! i ! j + M ! j ! i) * r)"
  using assms add_transpose_InrD[OF assms(1)]
  by (simp add: scale_matrix_nth fill_diagonal_nth nth_list_update)

lemma inductance_shape:
  assumes "add_transpose M = Inr S"
  shows "length (scale_matrix (fill_diagonal S d) r) = length M"
    "i < length M \<Longrightarrow> length (scale_matrix (fill_diagonal S d) r ! i) = length M"
  using add_transpose_InrD[OF assms]
  by (simp_all add: scale_matrix_nth fill_diagonal_nth)



lemma L_diagonal:
  assumes "setup_orientations c g als des = Inr g'" and "i < length (L g')"
  shows "L g' ! i ! i = (ln (8 * R g' / a g') - 2) * 4 * pi * R g'
       \<and> a g' \<noteq> 0 \<and> 0 < 8 * R g' / a g'"
proof -
  from assms(1) obtain M S d where
    S: "add_transpose M = Inr S" and
    d: "self_inductance (R g) (a g) = Inr d" and
    g': "L g' = scale_matrix (fill_diagonal S d) (R g)"
    by (rule setup_orientations_InrD) simp
  have Ra: "R g' = R g" "a g' = a g"
    using setup_orientations_fields[OF assms(1)] by simp_all
  have len: "length (L g') = length M" using inductance_shape(1)[OF S] g' by simp
  from d have dv: "d = (ln (8 * R g / a g) - 2) * 4 * pi" "a g \<noteq> 0" "0 < 8 * R g / a g"
    by (auto simp: self_inductance_def split: if_splits)
  have "L g' ! i ! i = d * R g"
    using inductance_entry[OF S, of i i] assms(2) len g' by simp
  with dv Ra show ?thesis by simp
qed

lemma length_symmetry_blocks [simp]:
  "length (symmetry_blocks n stl) = n * length stl"
  by (simp add: symmetry_blocks_def length_concat comp_def sum_list_triv)

lemma length_expand_symmetries [simp]:
  "length (expand_symmetries n stl ps) = length ps * (n * length stl)"
  by (simp add: expand_symmetries_def length_concat comp_def sum_list_triv)

lemma length_expanded_normals [simp]:
  "length (expanded_normals_xsimd ns n s) = length ns * (n * (if s = 0 then 1 else 2))"
  by (simp add: expanded_normals_xsimd_def)

lemma length_orientation_normals:
  "orientation_normals als des = Inr ns \<Longrightarrow> length ns = length als"
  by (auto simp: orientation_normals_def split: if_splits)

lemma is_square_rectangular: "rectangular (length M) (length M) M \<longleftrightarrow> is_square M"
  by (simp add: rectangular_def is_square_def)

lemma setup_orientations_returns:
  assumes "shapes_ok c" "length des = length als" "a g \<noteq> 0" "0 < 8 * R g / a g"
  shows "returns (setup_orientations c g als des)"
proof -
  have sq: "\<And>xyz al de qp qw. is_square (L_matrix c xyz al de qp qw)"
    using assms(1) unfolding shapes_ok_def rectangular_def is_square_def by metis
  show ?thesis
    using assms(2-4)
    by (simp add: setup_orientations_def orientation_normals_def Let_def add_transpose_def sq
        self_inductance_def not_le)
qed

lemma setup_orientations_lengths:
  assumes "shapes_ok c" "setup_orientations c g als des = Inr g'"
  shows "length (alphas_total g') = length als * nfp g * ((if stellsym g then 1 else 0) + 1)"
    "length (coil_normals_all g') = length als * nfp g * ((if stellsym g then 1 else 0) + 1)"
    "rectangular (length (alphas_total g')) (length (alphas_total g')) (L g')"
proof -
  from assms(2) obtain ns S d where
    ns: "orientation_normals als des = Inr ns" and
    S: "add_transpose (L_matrix c (grid_xyz_all_normalized g)
        (alphas_total (oriented c g als des ns))
        (deltas_total (oriented c g als des ns))
        (quad_points_phi g) (quad_weights g)) = Inr S" and
    g': "g' = (oriented c g als des ns)\<lparr>L := scale_matrix (fill_diagonal S d) (R g)\<rparr>"
    by (rule setup_orientations_InrD)
  have l: "length ns = length als" using ns by (rule length_orientation_normals)
  show 1: "length (alphas_total g') = length als * nfp g * ((if stellsym g then 1 else 0) + 1)"
    using assms(1) l by (simp add: g' oriented_def shapes_ok_def)
  show "length (coil_normals_all g') = length als * nfp g * ((if stellsym g then 1 else 0) + 1)"
    using l by (simp add: g' oriented_def)
  have lm: "length (L_matrix c (grid_xyz_all_normalized g)
        (alphas_total (oriented c g als des ns))
        (deltas_total (oriented c g als des ns))
        (quad_points_phi g) (quad_weights g)) = length (alphas_total g')"
    using assms(1) by (simp add: g' shapes_ok_def rectangular_def)
  show "rectangular (length (alphas_total g')) (length (alphas_total g')) (L g')"
    unfolding rectangular_def
    using inductance_shape[OF S, where d = d and r = "R g"] lm
    by (auto simp: g' in_set_conv_nth)
qed

lemma update_psi_returns:
  assumes "shapes_ok c"
  shows "returns (update_psi c g)"
  using assms by (simp add: update_psi_def Let_def shapes_ok_def)

lemma update_psi_InrD:
  assumes "update_psi c g = Inr g'"
  shows "g' = g\<lparr>flux_grid := flux_xyz c (grid_xyz_all g) (alphas_total g) (deltas_total g)
                  (quad_points_rho g) (quad_points_phi g),
               psi_total := flux_integration c
                  (B_TF_B c (flux_xyz c (grid_xyz_all g) (alphas_total g) (deltas_total g)
                     (quad_points_rho g) (quad_points_phi g)))
                  (quad_points_rho g) (coil_normals_all g) (quad_weights g),
               psi := take (num_psc g) (flux_integration c
                  (B_TF_B c (flux_xyz c (grid_xyz_all g) (alphas_total g) (deltas_total g)
                     (quad_points_rho g) (quad_points_phi g)))
                  (quad_points_rho g) (coil_normals_all g) (quad_weights g))\<rparr>"
  using assms by (auto simp: update_psi_def Let_def split: if_splits)

lemma mat_add_rectangular:
  assumes "rectangular r k A" "rectangular r k K"
  shows "\<exists>A'. mat_add A K = Inr A' \<and> rectangular r k A'"
proof -
  have "list_all2 (\<lambda>r s. length r = length s) A K"
    using assms by (auto simp: rectangular_def list_all2_conv_all_nth)
  moreover have "rectangular r k (map2 (map2 (+)) A K)"
    using assms by (auto simp: rectangular_def set_zip)
  ultimately show ?thesis by (simp add: mat_add_def)
qed

lemma A_matrix_loop_returns:
  assumes "shapes_ok c" "length (plasma_points g) = r"
    and "\<forall>q \<in> set qs. (q + 1) * num_psc g \<le> length (grid_xyz_all g)"
    and "rectangular r (num_psc g) A"
  shows "\<exists>A'. A_matrix_loop c g qs A = Inr A' \<and> rectangular r (num_psc g) A'"
  using assms(3,4)
proof (induction qs arbitrary: A)
  case Nil
  then show ?case by simp
next
  case (Cons q qs)
  let ?K = "A_matrix_simd c (block q (num_psc g) (grid_xyz_all g)) (plasma_points g)
             (block q (num_psc g) (alphas_total g)) (block q (num_psc g) (deltas_total g))
             (plasma_unitnormals g) (R g)"
  have "num_psc g + q * num_psc g \<le> length (grid_xyz_all g)"
    using Cons.prems(1) by simp
  then have "num_psc g \<le> length (grid_xyz_all g) - q * num_psc g"
    by linarith
  then have "length (block q (num_psc g) (grid_xyz_all g)) = num_psc g"
    by (simp add: block_def)
  then have "rectangular r (num_psc g) ?K"
    using assms(1,2) unfolding shapes_ok_def by metis
  from mat_add_rectangular[OF Cons.prems(2) this]
  obtain A' where A': "mat_add A ?K = Inr A'" "rectangular r (num_psc g) A'" by blast
  from Cons.IH[OF _ A'(2)] Cons.prems(1) A'(1) show ?case by simp
qed

lemma setup_A_matrix_returns:
  assumes "shapes_ok c" "length (plasma_points g) = nphi g * ntheta g"
    and "num_psc g * (nfp g * length (stell_list g)) \<le> length (grid_xyz_all g)"
  shows "\<exists>A. setup_A_matrix c g = Inr (g\<lparr>A_matrix := A\<rparr>) \<and>
             rectangular (nphi g * ntheta g) (num_psc g) A"
proof -
  have z: "rectangular (nphi g * ntheta g) (num_psc g)
             (replicate (nphi g * ntheta g) (replicate (num_psc g) 0))"
    by (simp add: rectangular_def)
  have qs: "\<forall>q \<in> set [0..<nfp g * length (stell_list g)].
              (q + 1) * num_psc g \<le> length (grid_xyz_all g)"
  proof
    fix q assume "q \<in> set [0..<nfp g * length (stell_list g)]"
    then have "q + 1 \<le> nfp g * length (stell_list g)" by simp
    then have "(q + 1) * num_psc g \<le> (nfp g * length (stell_list g)) * num_psc g"
      by (rule mult_le_mono1)
    with assms(3) show "(q + 1) * num_psc g \<le> length (grid_xyz_all g)"
      by (simp add: mult.commute)
  qed
  from A_matrix_loop_returns[OF assms(1,2) qs z]
  obtain A' where A': "A_matrix_loop c g [0..<nfp g * length (stell_list g)]
       (replicate (nphi g * ntheta g) (replicate (num_psc g) 0)) = Inr A'"
     "rectangular (nphi g * ntheta g) (num_psc g) A'" by blast
  have "rectangular (nphi g * ntheta g) (num_psc g) (map (map (\<lambda>x. 2 * x)) A')"
    using A'(2) by (auto simp: rectangular_def)
  with A'(1) show ?thesis by (auto simp: setup_A_matrix_def)
qed

lemma matvec_returns:
  "rectangular r (length v) M \<Longrightarrow> matvec M v = Inr (map (\<lambda>row. dot row v) M)"
  by (simp add: matvec_def rectangular_def)

lemma matvec_InrD:
  "matvec M v = Inr w \<Longrightarrow> w = map (\<lambda>row. dot row v) M \<and> rectangular (length M) (length v) M"
  by (auto simp: matvec_def rectangular_def split: if_splits)

lemma setup_A_matrix_InrD:
  "setup_A_matrix c g = Inr g' \<Longrightarrow> \<exists>A. g' = g\<lparr>A_matrix := A\<rparr>"
  by (auto simp: setup_A_matrix_def and_then_eq_Inr)

text \<open>The currents of the expanded coil set, before restriction.\<close>

lemma setup_currents_and_fields_InrD:
  assumes "setup_currents_and_fields c g = Inr g'"
  obtains Li v A bn where
    "linalg_inv c (L g) = Some Li"
    "matvec (map (map uminus) Li) (psi_total g) = Inr v"
    "setup_A_matrix c (g\<lparr>L_inv := Li, I_all := map (\<lambda>x. x / fac) v,
        I := take (num_psc g) (map (\<lambda>x. x / fac) v)\<rparr>) =
       Inr (g\<lparr>L_inv := Li, I_all := map (\<lambda>x. x / fac) v,
        I := take (num_psc g) (map (\<lambda>x. x / fac) v), A_matrix := A\<rparr>)"
    "matvec A (take (num_psc g) (map (\<lambda>x. x / fac) v)) = Inr bn"
    "g' = g\<lparr>L_inv := Li, I_all := map (\<lambda>x. x / fac) v,
        I := take (num_psc g) (map (\<lambda>x. x / fac) v), A_matrix := A, Bn_PSC := bn\<rparr>"
proof -
  from assms obtain Li where Li: "linalg_inv c (L g) = Some Li"
    by (auto simp: setup_currents_and_fields_def split: option.splits)
  from assms Li obtain v where v: "matvec (map (map uminus) Li) (psi_total g) = Inr v"
    by (auto simp: setup_currents_and_fields_def and_then_eq_Inr)
  let ?g1 = "g\<lparr>L_inv := Li, I_all := map (\<lambda>x. x / fac) v,
        I := take (num_psc g) (map (\<lambda>x. x / fac) v)\<rparr>"
  from assms Li v obtain g2 where g2: "setup_A_matrix c ?g1 = Inr g2"
    by (auto simp: setup_currents_and_fields_def and_then_eq_Inr Let_def)
  then obtain A where A: "g2 = ?g1\<lparr>A_matrix := A\<rparr>"
    using setup_A_matrix_InrD by blast
  from assms Li v g2 A obtain bn where
    bn: "matvec A (take (num_psc g) (map (\<lambda>x. x / fac) v)) = Inr bn"
      "g' = ?g1\<lparr>A_matrix := A, Bn_PSC := bn\<rparr>"
    by (auto simp: setup_currents_and_fields_def and_then_eq_Inr Let_def)
  show thesis
    using that[OF Li v _ bn(1)] g2 A bn(2) by simp
qed

lemma setup_currents_and_fields_returns:
  assumes "shapes_ok c" "linalg_inv c (L g) = Some Li"
    and "length (L g) = length (psi_total g)" "num_psc g \<le> length (L g)"
    and "length (plasma_points g) = nphi g * ntheta g"
    and "num_psc g * (nfp g * length (stell_list g)) \<le> length (grid_xyz_all g)"
  shows "\<exists>g'. setup_currents_and_fields c g = Inr g' \<and>
           length (Bn_PSC g') = nphi g * ntheta g"
proof -
  have rec: "rectangular (length (L g)) (length (L g)) Li"
    using assms(1,2) unfolding shapes_ok_def by blast
  then have "rectangular (length (L g)) (length (psi_total g)) (map (map uminus) Li)"
    using assms(3) by (auto simp: rectangular_def)
  from matvec_returns[OF this]
  obtain v where v: "matvec (map (map uminus) Li) (psi_total g) = Inr v" "length v = length (L g)"
    using rec by (auto simp: rectangular_def)
  let ?g1 = "g\<lparr>L_inv := Li, I_all := map (\<lambda>x. x / fac) v,
        I := take (num_psc g) (map (\<lambda>x. x / fac) v)\<rparr>"
  have "num_psc ?g1 = num_psc g" "stell_list ?g1 = stell_list g"
    by (simp_all add: num_psc_def stell_list_def)
  with setup_A_matrix_returns[OF assms(1), of ?g1] assms(5,6)
  obtain A where A: "setup_A_matrix c ?g1 = Inr (?g1\<lparr>A_matrix := A\<rparr>)"
      "rectangular (nphi g * ntheta g) (num_psc g) A"
    by auto
  have "length (take (num_psc g) (map (\<lambda>x. x / fac) v)) = num_psc g"
    using v(2) assms(4) by simp
  with A(2) have "matvec A (take (num_psc g) (map (\<lambda>x. x / fac) v)) =
      Inr (map (\<lambda>row. dot row (take (num_psc g) (map (\<lambda>x. x / fac) v))) A)"
    by (metis matvec_returns)
  with v(1) A assms(2) show ?thesis
    by (simp add: setup_currents_and_fields_def Let_def rectangular_def)
qed

lemma broadcast2_same:
  "length xs = length ys \<Longrightarrow> broadcast2 f xs ys = Inr (map2 f xs ys)"
  by (simp add: broadcast2_def)

lemma dot_scaled: "dot (map ((*) k) r) r = k * (\<Sum>x\<leftarrow>r. x ^ 2)"
  by (induction r) (simp_all add: dot_def power2_eq_square algebra_simps)

lemma least_squares_InrD:
  assumes "least_squares c g ks = Inr (v, g')"
  shows "\<exists>g1 g2 g3 s r.
    setup_orientations c g (take (num_psc g) ks) (drop (num_psc g) ks) = Inr g1 \<and>
    update_psi c g1 = Inr g2 \<and>
    setup_currents_and_fields c g2 = Inr g3 \<and>
    broadcast2 (+) (Bn_PSC g3) (b_opt g3) = Inr s \<and>
    broadcast2 (*) s (grid_normalization g3) = Inr r \<and>
    v = 1 / 2 * (\<Sum>x\<leftarrow>r. x ^ 2) * fac2_norm g3 \<and>
    g' = g3\<lparr>BdotN2_list := BdotN2_list g3 @ [v]\<rparr>"
  using assms unfolding least_squares_def
  by (auto simp: and_then_eq_Inr Let_def dot_scaled)

lemma update_psi_fields:
  assumes "update_psi c g = Inr g'"
  shows "R g' = R g" "a g' = a g" "grid_xyz g' = grid_xyz g" "nfp g' = nfp g"
    "stellsym g' = stellsym g" "alphas g' = alphas g" "deltas g' = deltas g"
    "grid_xyz_all g' = grid_xyz_all g" "num_psc g' = num_psc g"
    "nphi g' = nphi g" "ntheta g' = ntheta g" "plasma_points g' = plasma_points g"
    "plasma_unitnormals g' = plasma_unitnormals g"
    "grid_normalization g' = grid_normalization g" "b_opt g' = b_opt g"
    "fac2_norm g' = fac2_norm g" "L g' = L g" "coil_normals g' = coil_normals g"
    "coil_normals_all g' = coil_normals_all g" "alphas_total g' = alphas_total g"
    "deltas_total g' = deltas_total g" "stell_list g' = stell_list g"
    "BdotN2_list g' = BdotN2_list g" "Bn_plasma g' = Bn_plasma g"
    "psi_total g' = flux_integration c
                  (B_TF_B c (flux_xyz c (grid_xyz_all g) (alphas_total g) (deltas_total g)
                     (quad_points_rho g) (quad_points_phi g)))
                  (quad_points_rho g) (coil_normals_all g) (quad_weights g)"
    "psi g' = take (num_psc g) (psi_total g')"
  by (simp_all add: update_psi_InrD[OF assms] num_psc_def stell_list_def)

lemma setup_currents_and_fields_fields:
  assumes "setup_currents_and_fields c g = Inr g'"
  shows "R g' = R g" "a g' = a g" "grid_xyz g' = grid_xyz g" "nfp g' = nfp g"
    "stellsym g' = stellsym g" "alphas g' = alphas g" "deltas g' = deltas g"
    "grid_xyz_all g' = grid_xyz_all g" "num_psc g' = num_psc g"
    "nphi g' = nphi g" "ntheta g' = ntheta g" "plasma_points g' = plasma_points g"
    "plasma_unitnormals g' = plasma_unitnormals g"
    "grid_normalization g' = grid_normalization g" "b_opt g' = b_opt g"
    "fac2_norm g' = fac2_norm g" "L g' = L g" "coil_normals g' = coil_normals g"
    "coil_normals_all g' = coil_normals_all g" "alphas_total g' = alphas_total g"
    "deltas_total g' = deltas_total g" "psi_total g' = psi_total g" "psi g' = psi g"
    "BdotN2_list g' = BdotN2_list g" "Bn_plasma g' = Bn_plasma g"
  using assms
  by (auto elim!: setup_currents_and_fields_InrD simp: num_psc_def)

lemma least_squares_returns:
  assumes ok: "shapes_ok c" and len: "length ks = 2 * num_psc g"
    and ra: "a g \<noteq> 0" "0 < 8 * R g / a g" and fp: "0 < nfp g"
    and pl: "length (plasma_points g) = nphi g * ntheta g"
    and xa: "num_psc g * symmetry g \<le> length (grid_xyz_all g)"
    and bo: "length (b_opt g) = nphi g * ntheta g"
    and gn: "length (grid_normalization g) = nphi g * ntheta g"
    and inv: "\<And>g1. setup_orientations c g (take (num_psc g) ks) (drop (num_psc g) ks) = Inr g1
                \<Longrightarrow> linalg_inv c (L g1) \<noteq> None"
  shows "returns (least_squares c g ks)"
proof -
  let ?n = "num_psc g"
  let ?s = "(if stellsym g then 1 else 0) + (1::nat)"
  have ll: "length (drop ?n ks) = length (take ?n ks)" "length (take ?n ks) = ?n"
    using len by simp_all
  from setup_orientations_returns[OF ok ll(1) ra]
  obtain g1 where g1: "setup_orientations c g (take ?n ks) (drop ?n ks) = Inr g1"
    using returns_projr by blast
  note f1 = setup_orientations_fields[OF g1]
  note l1 = setup_orientations_lengths[OF ok g1]
  let ?N = "?n * nfp g * ?s"
  have N: "length (alphas_total g1) = ?N" "length (coil_normals_all g1) = ?N"
    using l1(1,2) ll(2) by simp_all
  from update_psi_returns[OF ok] obtain g2 where g2: "update_psi c g1 = Inr g2"
    using returns_projr by blast
  note f2 = update_psi_fields[OF g2]
  have psi: "length (psi_total g2) = ?N"
    using ok N(2) unfolding f2(25) shapes_ok_def by simp
  have L2: "length (L g2) = ?N"
    using l1(3) N(1) by (simp add: f2 rectangular_def)
  from inv[OF g1] obtain Li where Li: "linalg_inv c (L g2) = Some Li"
    by (auto simp: f2)
  have sl: "length (stell_list g2) = ?s"
    by (simp add: stell_list_def f2 f1)
  have "1 \<le> nfp g * ?s"
    using fp by (cases "stellsym g") simp_all
  then have "?n * 1 \<le> ?n * (nfp g * ?s)"
    by (rule mult_le_mono2)
  then have nN: "?n \<le> ?N" by (simp only: mult_1_right mult.assoc)
  have xa2: "num_psc g2 * (nfp g2 * length (stell_list g2)) \<le> length (grid_xyz_all g2)"
    using xa sl by (simp add: f2 f1 symmetry_def)
  from setup_currents_and_fields_returns[OF ok Li _ _ _ xa2] L2 psi nN pl
  obtain g3 where g3: "setup_currents_and_fields c g2 = Inr g3"
      "length (Bn_PSC g3) = nphi g * ntheta g"
    by (auto simp: f2 f1)
  note f3 = setup_currents_and_fields_fields[OF g3(1)]
  have b: "length (b_opt g3) = length (Bn_PSC g3)"
      "length (grid_normalization g3) = length (Bn_PSC g3)"
    using bo gn g3(2) by (simp_all add: f3 f2 f1)
  show ?thesis
    using g1 g2 g3(1) b
    by (simp add: least_squares_def broadcast2_same Let_def)
qed

lemma setup_full_grid_InrD:
  assumes "setup_full_grid c g = Inr g'"
  shows "g' = update_alphas_deltas c
           (g\<lparr>grid_xyz_all := expand_symmetries (nfp g) (stell_list g) (grid_xyz g),
              grid_xyz_all_normalized :=
                map (\<lambda>(x, y, z). (x / R g, y / R g, z / R g))
                  (expand_symmetries (nfp g) (stell_list g) (grid_xyz g))\<rparr>)"
  using assms by (auto simp: setup_full_grid_def Let_def split: if_splits)

lemma setup_full_grid_fields:
  assumes "setup_full_grid c g = Inr g'"
  shows "R g' = R g" "a g' = a g" "grid_xyz g' = grid_xyz g" "nfp g' = nfp g"
    "stellsym g' = stellsym g" "alphas g' = alphas g" "deltas g' = deltas g"
    "num_psc g' = num_psc g"
    "nphi g' = nphi g" "ntheta g' = ntheta g" "plasma_points g' = plasma_points g"
    "plasma_unitnormals g' = plasma_unitnormals g"
    "grid_normalization g' = grid_normalization g" "b_opt g' = b_opt g"
    "fac2_norm g' = fac2_norm g" "coil_normals g' = coil_normals g"
    "Bn_plasma g' = Bn_plasma g" "BdotN2_list g' = BdotN2_list g"
    "grid_xyz_all g' = expand_symmetries (nfp g) (stell_list g) (grid_xyz g)"
    "coil_normals_all g' =
       expanded_normals_xsimd (coil_normals g) (nfp g) (if stellsym g then 1 else 0)"
  by (simp_all add: setup_full_grid_InrD[OF assms] num_psc_def)

lemma setup_full_grid_returns: "R g \<noteq> 0 \<Longrightarrow> returns (setup_full_grid c g)"
  by (simp add: setup_full_grid_def Let_def)

lemma b_vector_InrD:
  assumes "b_vector c g = Inr g'"
  shows "\<exists>v. g' = g\<lparr>b_opt := v\<rparr>"
  using assms by (auto simp: b_vector_def and_then_eq_Inr)

lemma b_vector_returns:
  assumes "shapes_ok c" "length (plasma_unitnormals g) = length (plasma_points g)"
    "length (Bn_plasma g) = length (plasma_points g)"
  shows "\<exists>v. b_vector c g = Inr (g\<lparr>b_opt := v\<rparr>) \<and> length v = length (plasma_points g)"
proof -
  let ?v = "map (\<lambda>x. x / fac)
              (map2 (+) (map2 dot3 (B_TF_B c (plasma_points g)) (plasma_unitnormals g))
                 (Bn_plasma g))"
  have l: "length (B_TF_B c (plasma_points g)) = length (plasma_points g)"
    using assms(1) by (simp add: shapes_ok_def)
  then have 1: "b_vector c g = Inr (g\<lparr>b_opt := ?v\<rparr>)"
    using assms(2,3) by (simp add: b_vector_def broadcast2_same)
  have 2: "length ?v = length (plasma_points g)"
    using l assms(2,3) by simp
  from 1 2 show ?thesis by blast
qed

lemma ravel2_InrD: "ravel2 xs ys = Inr k \<Longrightarrow> k = xs @ ys \<and> length xs = length ys"
  by (auto simp: ravel2_def split: if_splits)

lemma finish_setup_InrD:
  assumes "finish_setup c g = Inr g'"
  shows "\<exists>g1 g2 g3 g4 v.
    setup_full_grid c g = Inr g1 \<and>
    setup_orientations c g1 (alphas g) (deltas g) = Inr g2 \<and>
    update_psi c g2 = Inr g3 \<and>
    setup_currents_and_fields c g3 = Inr g4 \<and>
    b_vector c g4 = Inr (g4\<lparr>b_opt := v\<rparr>) \<and>
    length (alphas g) = length (deltas g) \<and>
    g' = g4\<lparr>b_opt := v, kappas := alphas g @ deltas g\<rparr>"
proof -
  from assms obtain g1 g2 g3 g4 g5 k where
    s: "setup_full_grid c g = Inr g1"
      "setup_orientations c g1 (alphas g1) (deltas g1) = Inr g2"
      "update_psi c g2 = Inr g3"
      "setup_currents_and_fields c g3 = Inr g4"
      "b_vector c g4 = Inr g5" "ravel2 (alphas g5) (deltas g5) = Inr k"
      "g' = g5\<lparr>kappas := k\<rparr>"
    unfolding finish_setup_def by (auto simp: and_then_eq_Inr)
  from b_vector_InrD[OF s(5)] obtain v where v: "g5 = g4\<lparr>b_opt := v\<rparr>" by blast
  note f1 = setup_full_grid_fields[OF s(1)]
  note f2 = setup_orientations_fields[OF s(2)]
  note f3 = update_psi_fields[OF s(3)]
  note f4 = setup_currents_and_fields_fields[OF s(4)]
  have ad: "alphas g5 = alphas g" "deltas g5 = deltas g"
    by (simp_all add: v f4 f3 f2 f1)
  with ravel2_InrD[OF s(6)] s v f1 show ?thesis by auto
qed

lemma finish_setup_fields:
  assumes "finish_setup c g = Inr g'"
  shows "R g' = R g" "a g' = a g" "grid_xyz g' = grid_xyz g" "nfp g' = nfp g"
    "stellsym g' = stellsym g" "alphas g' = alphas g" "deltas g' = deltas g"
    "num_psc g' = num_psc g"
    "nphi g' = nphi g" "ntheta g' = ntheta g" "plasma_points g' = plasma_points g"
    "plasma_unitnormals g' = plasma_unitnormals g"
    "grid_normalization g' = grid_normalization g"
    "fac2_norm g' = fac2_norm g" "Bn_plasma g' = Bn_plasma g"
    "grid_xyz_all g' = expand_symmetries (nfp g) (stell_list g) (grid_xyz g)"
    "kappas g' = alphas g @ deltas g"
proof -
  from finish_setup_InrD[OF assms] obtain g1 g2 g3 g4 v where
    s: "setup_full_grid c g = Inr g1"
      "setup_orientations c g1 (alphas g) (deltas g) = Inr g2"
      "update_psi c g2 = Inr g3"
      "setup_currents_and_fields c g3 = Inr g4"
      "g' = g4\<lparr>b_opt := v, kappas := alphas g @ deltas g\<rparr>"
    by blast
  note f1 = setup_full_grid_fields[OF s(1)]
  note f2 = setup_orientations_fields[OF s(2)]
  note f3 = update_psi_fields[OF s(3)]
  note f4 = setup_currents_and_fields_fields[OF s(4)]
  show "R g' = R g" "a g' = a g" "grid_xyz g' = grid_xyz g" "nfp g' = nfp g"
    "stellsym g' = stellsym g" "alphas g' = alphas g" "deltas g' = deltas g"
    "num_psc g' = num_psc g"
    "nphi g' = nphi g" "ntheta g' = ntheta g" "plasma_points g' = plasma_points g"
    "plasma_unitnormals g' = plasma_unitnormals g"
    "grid_normalization g' = grid_normalization g"
    "fac2_norm g' = fac2_norm g" "Bn_plasma g' = Bn_plasma g"
    "grid_xyz_all g' = expand_symmetries (nfp g) (stell_list g) (grid_xyz g)"
    "kappas g' = alphas g @ deltas g"
    by (simp_all add: s(5) f4 f3 f2 f1 num_psc_def)
qed

lemma finish_setup_returns:
  assumes ok: "shapes_ok c"
    and ra: "R g \<noteq> 0" "a g \<noteq> 0" "0 < 8 * R g / a g" and fp: "0 < nfp g"
    and ad: "length (deltas g) = length (alphas g)" "length (alphas g) = num_psc g"
    and pl: "length (plasma_points g) = nphi g * ntheta g"
      "length (plasma_unitnormals g) = length (plasma_points g)"
      "length (Bn_plasma g) = length (plasma_points g)"
    and inv: "\<And>g1 g2. setup_full_grid c g = Inr g1 \<Longrightarrow>
                setup_orientations c g1 (alphas g) (deltas g) = Inr g2 \<Longrightarrow>
                linalg_inv c (L g2) \<noteq> None"
  shows "\<exists>g'. finish_setup c g = Inr g' \<and> length (b_opt g') = nphi g * ntheta g"
proof -
  let ?n = "num_psc g"
  let ?s = "(if stellsym g then 1 else 0) + (1::nat)"
  from setup_full_grid_returns[OF ra(1)] obtain g1 where g1: "setup_full_grid c g = Inr g1"
    using returns_projr by blast
  note f1 = setup_full_grid_fields[OF g1]
  have "returns (setup_orientations c g1 (alphas g) (deltas g))"
    using ra ad by (intro setup_orientations_returns[OF ok]) (simp_all add: f1)
  then obtain g2 where g2: "setup_orientations c g1 (alphas g) (deltas g) = Inr g2"
    using returns_projr by blast
  note f2 = setup_orientations_fields[OF g2]
  note l2 = setup_orientations_lengths[OF ok g2]
  let ?N = "?n * nfp g * ?s"
  have N: "length (alphas_total g2) = ?N" "length (coil_normals_all g2) = ?N"
    using l2(1,2) ad(2) by (simp_all add: f1)
  from update_psi_returns[OF ok] obtain g3 where g3: "update_psi c g2 = Inr g3"
    using returns_projr by blast
  note f3 = update_psi_fields[OF g3]
  have psi: "length (psi_total g3) = ?N"
    using ok N(2) unfolding f3(25) shapes_ok_def by simp
  have L3: "length (L g3) = ?N"
    using l2(3) N(1) by (simp add: f3 rectangular_def)
  from inv[OF g1 g2] obtain Li where Li: "linalg_inv c (L g3) = Some Li"
    by (auto simp: f3)
  have sl: "length (stell_list g) = ?s"
    by (simp add: stell_list_def)
  have "1 \<le> nfp g * ?s"
    using fp by (cases "stellsym g") simp_all
  then have "?n * 1 \<le> ?n * (nfp g * ?s)"
    by (rule mult_le_mono2)
  then have nN: "?n \<le> ?N" by (simp only: mult_1_right mult.assoc)
  have xa: "num_psc g3 * (nfp g3 * length (stell_list g3)) \<le> length (grid_xyz_all g3)"
    using sl by (simp add: f3 f2 f1 stell_list_def num_psc_def)
  from setup_currents_and_fields_returns[OF ok Li _ _ _ xa] L3 psi nN pl(1)
  obtain g4 where g4: "setup_currents_and_fields c g3 = Inr g4"
    by (auto simp: f3 f2 f1)
  note f4 = setup_currents_and_fields_fields[OF g4]
  from b_vector_returns[OF ok, of g4] pl
  obtain v where v: "b_vector c g4 = Inr (g4\<lparr>b_opt := v\<rparr>)" "length v = nphi g * ntheta g"
    by (auto simp: f4 f3 f2 f1)
  have "ravel2 (alphas g4) (deltas g4) = Inr (alphas g @ deltas g)"
    using ad by (simp add: ravel2_def f4 f3 f2)
  with g1 g2 g3 g4 v show ?thesis
    by (simp add: finish_setup_def f1)
qed

lemma setup_plasma_boundary_InrD:
  assumes "setup_plasma_boundary s bn g = Inr g'"
  shows "R g' = R g" "a g' = a g" "grid_xyz g' = grid_xyz g" "alphas g' = alphas g"
    "deltas g' = deltas g" "nfp g' = s_nfp s" "stellsym g' = s_stellsym s"
    "nphi g' = length (quadpoints_phi s)" "ntheta g' = length (quadpoints_theta s)"
    "plasma_points g' = gamma s" "plasma_unitnormals g' = unitnormal s"
    "length (grid_normalization g') = length (normal s)"
    "Bn_plasma g' = (case bn of None \<Rightarrow>
        replicate (length (quadpoints_phi s) * length (quadpoints_theta s)) 0
      | Some (r, k, vals) \<Rightarrow> vals)"
    "num_psc g' = num_psc g"
  using assms
  by (auto simp: setup_plasma_boundary_def Let_def num_psc_def
      split: if_splits prod.splits option.splits)

lemma setup_plasma_boundary_returns:
  assumes "normal s = [] \<or> length (quadpoints_phi s) * length (quadpoints_theta s) \<noteq> 0"
  shows "returns (setup_plasma_boundary s None g)"
  using assms by (auto simp: setup_plasma_boundary_def Let_def shape_allclose_def)

lemma setup_normalization_InrD:
  assumes "setup_normalization c s g = Inr g'"
  shows "g' = g\<lparr>normalization := (calculate_on_axis_B c s) ^ 2 * area s,
               fac2_norm := fac ^ 2 / ((calculate_on_axis_B c s) ^ 2 * area s)\<rparr>"
    "(calculate_on_axis_B c s) ^ 2 * area s \<noteq> 0"
  using assms by (auto simp: setup_normalization_def Let_def split: if_splits)

lemma manual_start_fields [simp]:
  "grid_xyz (manual_start c points r0 kw) = points"
  "R (manual_start c points r0 kw) = r0"
  "a (manual_start c points r0 kw) = (case kw_a kw of None \<Rightarrow> r0 / 100 | Some v \<Rightarrow> v)"
  "alphas (manual_start c points r0 kw) = (case kw_alphas kw of
                     None \<Rightarrow> map (\<lambda>u. (u - 0.5) * pi) (random_rand c 0 (length points))
                   | Some v \<Rightarrow> v)"
  "deltas (manual_start c points r0 kw) = (case kw_deltas kw of
                     None \<Rightarrow> map (\<lambda>u. (u - 0.5) * 2 * pi) (random_rand c 1 (length points))
                   | Some v \<Rightarrow> v)"
  by (simp_all add: manual_start_def)

lemma geo_setup_manual_unfold:
  "geo_setup_manual c points r0 kw =
     and_then (setup_plasma_boundary (manual_plasma_boundary c kw) (kw_Bn_plasma kw)
                 (manual_start c points r0 kw)) (\<lambda>g2.
     and_then (check_symmetry_planes (nfp g2) (R g2) (grid_xyz g2)) (\<lambda>u.
     and_then (if kw_interpolated_field kw \<and> points = []
               then Inl (ValueError ''zero-size array to reduction operation maximum'')
               else Inr ()) (\<lambda>u.
     and_then (setup_normalization c (manual_plasma_boundary c kw) g2) (\<lambda>g3.
     and_then (orientation_normals (alphas g3) (deltas g3)) (\<lambda>normals.
       finish_setup c (g3\<lparr>coil_normals := map flip_small_negative3 normals\<rparr>))))))"
  by (simp add: geo_setup_manual_def manual_start_def Let_def)

lemma geo_setup_manual_InrD:
  assumes "geo_setup_manual c points r0 kw = Inr g"
  shows "R g = r0" "a g = (case kw_a kw of None \<Rightarrow> r0 / 100 | Some v \<Rightarrow> v)"
    "grid_xyz g = points" "nfp g = s_nfp (manual_plasma_boundary c kw)"
    "stellsym g = s_stellsym (manual_plasma_boundary c kw)"
    "fac2_norm g = fac ^ 2 / ((calculate_on_axis_B c (manual_plasma_boundary c kw)) ^ 2
         * area (manual_plasma_boundary c kw))"
    "(calculate_on_axis_B c (manual_plasma_boundary c kw)) ^ 2
         * area (manual_plasma_boundary c kw) \<noteq> 0"
    "check_symmetry_planes (s_nfp (manual_plasma_boundary c kw)) r0 points = Inr ()"
    "length (grid_normalization g) = length (normal (manual_plasma_boundary c kw))"
    "nphi g = length (quadpoints_phi (manual_plasma_boundary c kw))"
    "ntheta g = length (quadpoints_theta (manual_plasma_boundary c kw))"
    "plasma_points g = gamma (manual_plasma_boundary c kw)"
    "grid_xyz_all g = expand_symmetries (nfp g) (stell_list g) points"
proof -
  let ?s = "manual_plasma_boundary c kw"
  from assms[unfolded geo_setup_manual_unfold] obtain g2 g3 ns where
    s: "setup_plasma_boundary ?s (kw_Bn_plasma kw) (manual_start c points r0 kw) = Inr g2"
      "check_symmetry_planes (nfp g2) (R g2) (grid_xyz g2) = Inr ()"
      "setup_normalization c ?s g2 = Inr g3"
      "finish_setup c (g3\<lparr>coil_normals := map flip_small_negative3 ns\<rparr>) = Inr g"
    by (auto simp: and_then_eq_Inr split: if_splits)
  note f2 = setup_plasma_boundary_InrD[OF s(1)]
  note f3 = setup_normalization_InrD[OF s(3)]
  note f4 = finish_setup_fields[OF s(4)]
  show "R g = r0" "a g = (case kw_a kw of None \<Rightarrow> r0 / 100 | Some v \<Rightarrow> v)"
    "grid_xyz g = points" "nfp g = s_nfp ?s" "stellsym g = s_stellsym ?s"
    "fac2_norm g = fac ^ 2 / ((calculate_on_axis_B c ?s) ^ 2 * area ?s)"
    "length (grid_normalization g) = length (normal ?s)"
    "nphi g = length (quadpoints_phi ?s)"
    "ntheta g = length (quadpoints_theta ?s)"
    "plasma_points g = gamma ?s"
    by (simp_all add: f4 f3(1) f2)
  show "(calculate_on_axis_B c ?s) ^ 2 * area ?s \<noteq> 0" by (rule f3(2))
  show "check_symmetry_planes (s_nfp ?s) r0 points = Inr ()"
    using s(2) by (simp add: f2)
  show "grid_xyz_all g = expand_symmetries (nfp g) (stell_list g) points"
    by (simp add: f4 f3(1) f2 stell_list_def)
qed

lemma geo_setup_manual_returns:
  assumes ok: "shapes_ok c"
    and kw: "kw_Bn_plasma kw = None" "\<not> kw_interpolated_field kw"
      "kw_alphas kw = Some als" "kw_deltas kw = Some des"
    and ad: "length als = length points" "length des = length points"
    and ra: "r0 \<noteq> 0" "(case kw_a kw of None \<Rightarrow> r0 / 100 | Some v \<Rightarrow> v) \<noteq> 0"
      "0 < 8 * r0 / (case kw_a kw of None \<Rightarrow> r0 / 100 | Some v \<Rightarrow> v)"
    and su: "length (gamma (manual_plasma_boundary c kw)) =
               length (quadpoints_phi (manual_plasma_boundary c kw)) *
               length (quadpoints_theta (manual_plasma_boundary c kw))"
      "length (unitnormal (manual_plasma_boundary c kw)) =
         length (gamma (manual_plasma_boundary c kw))"
      "length (normal (manual_plasma_boundary c kw)) =
         length (gamma (manual_plasma_boundary c kw))"
    and sym: "check_symmetry_planes (s_nfp (manual_plasma_boundary c kw)) r0 points = Inr ()"
    and nrm: "(calculate_on_axis_B c (manual_plasma_boundary c kw)) ^ 2
         * area (manual_plasma_boundary c kw) \<noteq> 0"
    and inv: "\<And>M. is_square M \<Longrightarrow> linalg_inv c M \<noteq> None"
  shows "returns (geo_setup_manual c points r0 kw)"
proof -
  let ?s = "manual_plasma_boundary c kw"
  let ?g1 = "manual_start c points r0 kw"
  have "normal ?s = [] \<or> length (quadpoints_phi ?s) * length (quadpoints_theta ?s) \<noteq> 0"
    using su by (cases "normal ?s") auto
  from setup_plasma_boundary_returns[OF this] obtain g2 where
    g2: "setup_plasma_boundary ?s (kw_Bn_plasma kw) ?g1 = Inr g2"
    unfolding kw(1) using returns_projr by blast
  note f2 = setup_plasma_boundary_InrD[OF g2]
  have chk: "check_symmetry_planes (nfp g2) (R g2) (grid_xyz g2) = Inr ()"
    using sym by (simp add: f2)
  have g3: "setup_normalization c ?s g2 =
      Inr (g2\<lparr>normalization := (calculate_on_axis_B c ?s) ^ 2 * area ?s,
               fac2_norm := fac ^ 2 / ((calculate_on_axis_B c ?s) ^ 2 * area ?s)\<rparr>)"
    using nrm by (simp add: setup_normalization_def Let_def)
  let ?g3 = "g2\<lparr>normalization := (calculate_on_axis_B c ?s) ^ 2 * area ?s,
               fac2_norm := fac ^ 2 / ((calculate_on_axis_B c ?s) ^ 2 * area ?s)\<rparr>"
  have ns: "orientation_normals (alphas ?g3) (deltas ?g3) = Inr (map2 coil_normal als des)"
    using ad kw by (simp add: f2 orientation_normals_def)
  let ?g4 = "?g3\<lparr>coil_normals := map flip_small_negative3 (map2 coil_normal als des)\<rparr>"
  have fp: "0 < nfp ?g4"
    using sym by (auto simp: f2 check_symmetry_planes_def split: if_splits)
  have inv': "linalg_inv c (L g2) \<noteq> None"
    if "setup_orientations c g1 (alphas ?g4) (deltas ?g4) = Inr g2" for g1 g2
    using setup_orientations_lengths(3)[OF ok that]
    by (intro inv) (simp add: rectangular_def is_square_def)
  have "\<exists>g'. finish_setup c ?g4 = Inr g' \<and> length (b_opt g') = nphi ?g4 * ntheta ?g4"
    using ra ad kw su fp
    by (intro finish_setup_returns[OF ok] inv') (simp_all add: f2 num_psc_def)
  then obtain g' where "finish_setup c ?g4 = Inr g'" by blast
  with g2 chk g3 ns kw(2) show ?thesis
    by (simp add: geo_setup_manual_unfold)
qed

lemma demo_shapes_ok: "shapes_ok demo_collab"
  by (auto simp: shapes_ok_def demo_collab_def rectangular_def is_square_def Let_def)

lemma demo_inv: "is_square M \<Longrightarrow> linalg_inv demo_collab M \<noteq> None"
  by (simp add: demo_collab_def)

lemma demo_kwargs_sel [simp]:
  "kw_a demo_kwargs = None" "kw_alphas demo_kwargs = Some [0]"
  "kw_deltas demo_kwargs = Some [0]" "kw_plasma_boundary demo_kwargs = None"
  "kw_Bn_plasma demo_kwargs = None" "\<not> kw_interpolated_field demo_kwargs"
  by (simp_all add: demo_kwargs_def)

lemma demo_boundary [simp]:
  "manual_plasma_boundary demo_collab demo_kwargs = demo_surface"
  by (simp add: manual_plasma_boundary_def demo_collab_def demo_surface_def)

lemma arctan_lt_pi2: "arctan x < pi / 2"
  using arctan_ubound[of x] by simp

lemma no_conflict_y_axis: "0 < y \<Longrightarrow> \<not> plane_conflict n r0 0 (0, y, z)"
  using arctan_lt_pi2[of "r0 / y"]
  by (simp add: plane_conflict_def arctan2_def)

lemma demo_check: "check_symmetry_planes 1 (1 / 10) [(0, 1, 0)] = Inr ()"
  by (simp add: check_symmetry_planes_def bad_indices_def no_conflict_y_axis)

lemma demo_built:
  "geo_setup_manual demo_collab [(0, 1, 0)] (1 / 10) demo_kwargs = Inr demo_grid"
proof -
  have "returns (geo_setup_manual demo_collab [(0, 1, 0)] (1 / 10) demo_kwargs)"
  proof (rule geo_setup_manual_returns[OF demo_shapes_ok, where als = "[0]" and des = "[0]"])
    show "check_symmetry_planes (s_nfp (manual_plasma_boundary demo_collab demo_kwargs))
            (1 / 10) [(0, 1, 0)] = Inr ()"
      using demo_check by (simp add: demo_surface_def)
  qed (simp_all add: demo_surface_def demo_inv, simp add: demo_collab_def)
  then show ?thesis
    unfolding demo_grid_def by (rule returns_projr)
qed

lemma demo_grid_fields:
  "R demo_grid = 1 / 10" "a demo_grid = 1 / 1000" "grid_xyz demo_grid = [(0, 1, 0)]"
  "nfp demo_grid = 1" "stellsym demo_grid = False" "num_psc demo_grid = 1"
  using geo_setup_manual_InrD[OF demo_built]
  by (simp_all add: demo_surface_def num_psc_def)

lemma demo_orient:
  "returns (setup_orientations demo_collab demo_grid [x] [y])"
  by (rule setup_orientations_returns[OF demo_shapes_ok]) (simp_all add: demo_grid_fields)


section \<open>The inductance matrix\<close>

lemma demo_L_length:
  "setup_orientations demo_collab demo_grid [x] [y] = Inr g' \<Longrightarrow> length (L g') = 1"
  using setup_orientations_lengths[OF demo_shapes_ok, of demo_grid "[x]" "[y]" g']
  by (simp add: demo_grid_fields rectangular_def)



lemma ln_800: "ln (800::real) - 2 < ln 798"
proof -
  have "(800::real) < 798 * exp 2"
    using exp_ge_add_one_self[of "2::real"] by simp
  then have "ln (800::real) < ln (798 * exp 2)"
    by (subst ln_less_cancel_iff) simp_all
  also have "\<dots> = ln 798 + 2"
    by (simp add: ln_mult)
  finally show ?thesis by simp
qed

text \<open>
  The diagonal of the inductance matrix is not \<open>log(8R/a - 2) * 4 pi R\<close>: for the coil of
  the concrete run, with \<open>R = 1/10\<close> and \<open>a = R/100\<close>, the entry is
  \<open>(log 800 - 2) * 4 pi / 10\<close>, which is smaller than \<open>log 798 * 4 pi / 10\<close>.
\<close>

theorem inductance_diagonal_counterexample:
  "returns (setup_orientations demo_collab demo_grid [0] [0]) \<and>
   0 < length (L (projr (setup_orientations demo_collab demo_grid [0] [0]))) \<and>
   L (projr (setup_orientations demo_collab demo_grid [0] [0])) ! 0 ! 0 \<noteq>
     ln (8 * R (projr (setup_orientations demo_collab demo_grid [0] [0]))
           / a (projr (setup_orientations demo_collab demo_grid [0] [0])) - 2)
       * 4 * pi * R (projr (setup_orientations demo_collab demo_grid [0] [0]))"
proof -
  let ?G = "projr (setup_orientations demo_collab demo_grid [0] [0])"
  have r: "setup_orientations demo_collab demo_grid [0] [0] = Inr ?G"
    by (rule returns_projr[OF demo_orient])
  have len: "length (L ?G) = 1" by (rule demo_L_length[OF r])
  have Ra: "R ?G = 1 / 10" "a ?G = 1 / 1000"
    using setup_orientations_fields[OF r] by (simp_all add: demo_grid_fields)
  have e: "8 * R ?G / a ?G = 800" by (simp add: Ra)
  have d: "L ?G ! 0 ! 0 = (ln (8 * R ?G / a ?G) - 2) * 4 * pi * R ?G"
    using L_diagonal[OF r, of 0] len by simp
  have v: "L ?G ! 0 ! 0 = (ln 800 - 2) * 4 * pi * (1 / 10)"
    using d[unfolded e] unfolding Ra(1) .
  have "ln (8 * R ?G / a ?G - 2) * 4 * pi * R ?G = ln (800 - 2) * 4 * pi * (1 / 10)"
    unfolding e unfolding Ra(1) ..
  also have "\<dots> = ln 798 * 4 * pi * (1 / 10)" by simp
  finally have w: "ln (8 * R ?G / a ?G - 2) * 4 * pi * R ?G = ln 798 * 4 * pi * (1 / 10)" .
  have "(ln 800 - 2) * 4 * pi * (1 / 10) < ln 798 * 4 * pi * (1 / 10)"
    using ln_800 by simp
  then have "L ?G ! 0 ! 0 \<noteq> ln (8 * R ?G / a ?G - 2) * 4 * pi * R ?G"
    unfolding v w by (rule less_imp_neq)
  with demo_orient len show ?thesis by simp
qed

text \<open>
  Claim C4, amended. After every call to \<^verbatim>\<open>setup_orientations\<close>, every diagonal entry of
  the inductance matrix equals \<open>(log(8R/a) - 2) * 4 pi * R\<close>, with the 2 subtracted from the
  logarithm and not inside it, where \<open>R\<close> is the major and \<open>a\<close> the minor radius.
\<close>

theorem inductance_diagonal:
  assumes "setup_orientations c g als des = Inr g'" and "i < length (L g')"
  shows "L g' ! i ! i = (ln (8 * R g' / a g') - 2) * 4 * pi * R g'"
  using L_diagonal[OF assms] by simp

theorem inductance_diagonal_witness:
  "setup_orientations demo_collab demo_grid [0] [0] =
     Inr (projr (setup_orientations demo_collab demo_grid [0] [0])) \<and>
   (0::nat) < length (L (projr (setup_orientations demo_collab demo_grid [0] [0]))) \<and>
   L (projr (setup_orientations demo_collab demo_grid [0] [0])) ! 0 ! 0 =
     (ln 800 - 2) * 4 * pi * (1 / 10)"
proof -
  let ?G = "projr (setup_orientations demo_collab demo_grid [0] [0])"
  have r: "setup_orientations demo_collab demo_grid [0] [0] = Inr ?G"
    by (rule returns_projr[OF demo_orient])
  have len: "0 < length (L ?G)" using demo_L_length[OF r] by simp
  have Ra: "R ?G = 1 / 10" "a ?G = 1 / 1000"
    using setup_orientations_fields[OF r] by (simp_all add: demo_grid_fields)
  from inductance_diagonal[OF r len] r len show ?thesis by (simp add: Ra)
qed


section \<open>The stored normals\<close>

lemma stored_normals:
  assumes "setup_orientations c g als des = Inr g'" "length des = length als"
  shows "coil_normals g' = map flip_small_negative3 (map2 coil_normal als des)"
  using assms
  by (auto elim!: setup_orientations_InrD simp: oriented_def orientation_normals_def)

lemma flip_small_negative_id:
  "\<not> (- (1 / 10 ^ 8) \<le> x \<and> x < 0) \<Longrightarrow> flip_small_negative x = x"
  by (auto simp: flip_small_negative_def isclose0_def)

lemma sin_tiny: "0 < sin (1 / 1000000000 :: real)" "sin (1 / 1000000000 :: real) \<le> 1 / 1000000000"
proof -
  have "(1 / 1000000000 :: real) < 2" by simp
  then show "0 < sin (1 / 1000000000 :: real)" by (intro sin_gt_zero_02) simp_all
  show "sin (1 / 1000000000 :: real) \<le> 1 / 1000000000" by (rule sin_x_le_x) simp
qed

text \<open>
  The stored normal is not always the trigonometric vector: with \<open>alpha = 1e-9\<close> and
  \<open>delta = 0\<close> the second component \<open>- sin alpha\<close> lies in \<open>[-1e-8, 0)\<close>, and the fix-up
  for negative zeros stores it with the opposite sign.
\<close>

theorem stored_normal_counterexample:
  "returns (setup_orientations demo_collab demo_grid [1 / 1000000000] [0]) \<and>
   coil_normals (projr (setup_orientations demo_collab demo_grid [1 / 1000000000] [0])) ! 0 =
     (0, sin (1 / 1000000000), cos (1 / 1000000000)) \<and>
   coil_normals (projr (setup_orientations demo_collab demo_grid [1 / 1000000000] [0])) ! 0 \<noteq>
     (cos (1 / 1000000000) * sin 0, - sin (1 / 1000000000), cos (1 / 1000000000) * cos 0)"
proof -
  let ?G = "projr (setup_orientations demo_collab demo_grid [1 / 1000000000] [0])"
  have r: "setup_orientations demo_collab demo_grid [1 / 1000000000] [0] = Inr ?G"
    by (rule returns_projr[OF demo_orient])
  have c: "0 < cos (1 / 1000000000 :: real)"
    using pi_ge_two by (intro cos_gt_zero) simp_all
  have f: "flip_small_negative (- sin (1 / 1000000000)) = sin (1 / 1000000000)"
    using sin_tiny by (simp add: flip_small_negative_def isclose0_def)
  have "coil_normals ?G ! 0 = (0, sin (1 / 1000000000), cos (1 / 1000000000))"
    using c f
    by (simp add: stored_normals[OF r] coil_normal_def flip_small_negative3_def
        flip_small_negative_id)
  with sin_tiny(1) demo_orient show ?thesis by simp
qed

text \<open>
  Claim C7, amended. For every coil \<open>i\<close> and all angle arrays of equal length passed to
  \<^verbatim>\<open>setup_orientations\<close>, the stored normal of coil \<open>i\<close> is
  \<open>(cos alpha_i sin delta_i, - sin alpha_i, cos alpha_i cos delta_i)\<close> with every component
  \<open>x\<close> in \<open>[-1e-8, 0)\<close> replaced by \<open>- x\<close>; it is exactly that vector whenever none of
  its components lies in \<open>[-1e-8, 0)\<close>.
\<close>

theorem stored_normal:
  assumes "setup_orientations c g als des = Inr g'" "length des = length als" "i < length als"
  shows "coil_normals g' ! i = flip_small_negative3 (coil_normal (als ! i) (des ! i)) \<and>
    ((\<forall>x \<in> {cos (als ! i) * sin (des ! i), - sin (als ! i), cos (als ! i) * cos (des ! i)}.
        \<not> (- (1 / 10 ^ 8) \<le> x \<and> x < 0)) \<longrightarrow>
     coil_normals g' ! i =
       (cos (als ! i) * sin (des ! i), - sin (als ! i), cos (als ! i) * cos (des ! i)))"
  using assms(2,3)
  by (simp add: stored_normals[OF assms(1,2)] coil_normal_def flip_small_negative3_def
      flip_small_negative_id)

theorem stored_normal_witness:
  "setup_orientations demo_collab demo_grid [0] [0] =
     Inr (projr (setup_orientations demo_collab demo_grid [0] [0])) \<and>
   coil_normals (projr (setup_orientations demo_collab demo_grid [0] [0])) ! 0 = (0, 0, 1)"
proof -
  let ?G = "projr (setup_orientations demo_collab demo_grid [0] [0])"
  have r: "setup_orientations demo_collab demo_grid [0] [0] = Inr ?G"
    by (rule returns_projr[OF demo_orient])
  from stored_normal[OF r, of 0] r show ?thesis
    by (simp add: coil_normal_def flip_small_negative3_def flip_small_negative_def)
qed


section \<open>Symmetry expansion and restriction\<close>

lemma rotate_stell_id: "rotate_stell (0, 1) p = p"
  by (cases p) (simp add: rotate_stell_def)

lemma symmetry_blocks_first:
  "0 < n \<Longrightarrow> \<exists>bs. symmetry_blocks n (1 # t) = (0, 1) # bs"
  by (simp add: symmetry_blocks_def upt_conv_Cons)

lemma map_rotate_stell_id: "map (rotate_stell (0, 1)) ps = ps"
  by (induction ps) (simp_all add: rotate_stell_id)

lemma take_expand_symmetries:
  assumes "0 < n"
  shows "take (length ps) (expand_symmetries n (1 # t) ps) = ps"
proof -
  from symmetry_blocks_first[OF assms] obtain bs where
    "symmetry_blocks n (1 # t) = (0, 1) # bs" by blast
  then show ?thesis
    by (simp add: expand_symmetries_def map_rotate_stell_id)
qed

lemma take_expanded_centers:
  "0 < nfp g \<Longrightarrow>
   take (length (grid_xyz g)) (expand_symmetries (nfp g) (stell_list g) (grid_xyz g)) = grid_xyz g"
  by (simp add: stell_list_def take_expand_symmetries)

lemma take_expanded_normals:
  "0 < n \<Longrightarrow> take (length ns) (expanded_normals_xsimd ns n s) = ns"
  by (simp add: expanded_normals_xsimd_def take_expand_symmetries)

lemma finish_setup_normals:
  assumes "finish_setup c g = Inr g'"
  shows "coil_normals g' = map flip_small_negative3 (map2 coil_normal (alphas g) (deltas g))"
proof -
  from finish_setup_InrD[OF assms] obtain g1 g2 g3 g4 v where
    s: "setup_orientations c g1 (alphas g) (deltas g) = Inr g2"
      "update_psi c g2 = Inr g3"
      "setup_currents_and_fields c g3 = Inr g4"
      "length (alphas g) = length (deltas g)"
      "g' = g4\<lparr>b_opt := v, kappas := alphas g @ deltas g\<rparr>"
    by blast
  show ?thesis
    using stored_normals[OF s(1)] s(4)
    by (simp add: s(5) setup_currents_and_fields_fields[OF s(3)] update_psi_fields[OF s(2)])
qed

lemma geo_setup_manual_angles:
  assumes "geo_setup_manual c points r0 kw = Inr g"
  shows "alphas g = alphas (manual_start c points r0 kw)"
    "deltas g = deltas (manual_start c points r0 kw)"
    "length (alphas g) = length (deltas g)"
    "coil_normals g = map flip_small_negative3 (map2 coil_normal (alphas g) (deltas g))"
proof -
  let ?s = "manual_plasma_boundary c kw"
  from assms[unfolded geo_setup_manual_unfold] obtain g2 g3 ns where
    s: "setup_plasma_boundary ?s (kw_Bn_plasma kw) (manual_start c points r0 kw) = Inr g2"
      "setup_normalization c ?s g2 = Inr g3"
      "finish_setup c (g3\<lparr>coil_normals := map flip_small_negative3 ns\<rparr>) = Inr g"
    by (auto simp: and_then_eq_Inr split: if_splits)
  note f2 = setup_plasma_boundary_InrD[OF s(1)]
  note f3 = setup_normalization_InrD[OF s(2)]
  note f4 = finish_setup_fields[OF s(3)]
  show 1: "alphas g = alphas (manual_start c points r0 kw)"
    and 2: "deltas g = deltas (manual_start c points r0 kw)"
    by (simp_all add: f4 f3(1) f2)
  from finish_setup_InrD[OF s(3)] show "length (alphas g) = length (deltas g)"
    by (auto simp: f4)
  show "coil_normals g = map flip_small_negative3 (map2 coil_normal (alphas g) (deltas g))"
    using finish_setup_normals[OF s(3)] by (simp add: f4)
qed

lemma demo_grid_normals:
  "coil_normals demo_grid = [(0, 0, 1)]" "alphas demo_grid = [0]" "deltas demo_grid = [0]"
  using geo_setup_manual_angles[OF demo_built]
  by (simp_all add: coil_normal_def flip_small_negative3_def flip_small_negative_def)

lemma demo_grid_expanded: "grid_xyz_all demo_grid = [(0, 1, 0)]"
  using geo_setup_manual_InrD(13)[OF demo_built] take_expand_symmetries[of 1 "[(0, 1, 0)]" "[]"]
  by (simp add: demo_grid_fields stell_list_def)

lemma demo_full_grid: "returns (setup_full_grid demo_collab demo_grid)"
  by (rule setup_full_grid_returns) (simp add: demo_grid_fields)

text \<open>
  Claim C8. For every grid with at least one field period and every orientation, the first
  \<open>num_psc\<close> expanded centers are the fundamental-domain centers and the first \<open>num_psc\<close>
  expanded normals are the fundamental-domain normals: after \<^verbatim>\<open>setup_full_grid\<close>, and after
  every \<^verbatim>\<open>setup_orientations\<close> with one \<open>alpha\<close> per coil, which leaves the expanded centers
  as they were. The expanded normals are those of the kernel as the specification describes
  it.
\<close>

theorem expansion_then_restriction:
  assumes "0 < nfp g"
  shows "(setup_full_grid c g = Inr g1 \<longrightarrow>
            take (num_psc g1) (grid_xyz_all g1) = grid_xyz g1 \<and>
            (length (coil_normals g) = num_psc g \<longrightarrow>
               take (num_psc g1) (coil_normals_all g1) = coil_normals g1)) \<and>
         (setup_orientations c g als des = Inr g2 \<longrightarrow> length als = num_psc g \<longrightarrow>
            take (num_psc g2) (coil_normals_all g2) = coil_normals g2 \<and>
            (take (num_psc g) (grid_xyz_all g) = grid_xyz g \<longrightarrow>
               take (num_psc g2) (grid_xyz_all g2) = grid_xyz g2))"
proof (intro conjI impI)
  assume r: "setup_full_grid c g = Inr g1"
  note f = setup_full_grid_fields[OF r]
  show "take (num_psc g1) (grid_xyz_all g1) = grid_xyz g1"
    using take_expanded_centers[OF assms] by (simp add: f num_psc_def)
  assume "length (coil_normals g) = num_psc g"
  then show "take (num_psc g1) (coil_normals_all g1) = coil_normals g1"
    using take_expanded_normals[OF assms, of "coil_normals g"] by (simp add: f)
next
  assume r: "setup_orientations c g als des = Inr g2" and l: "length als = num_psc g"
  note f = setup_orientations_fields[OF r]
  from r obtain ns where ns: "orientation_normals als des = Inr ns"
    and g2: "coil_normals g2 = map flip_small_negative3 ns"
      "coil_normals_all g2 = expanded_normals_xsimd (map flip_small_negative3 ns) (nfp g)
         (if stellsym g then 1 else 0)"
    by (auto elim!: setup_orientations_InrD simp: oriented_def)
  have "length (map flip_small_negative3 ns) = num_psc g2"
    using length_orientation_normals[OF ns] l by (simp add: f)
  then show "take (num_psc g2) (coil_normals_all g2) = coil_normals g2"
    using take_expanded_normals[OF assms, of "map flip_small_negative3 ns"]
    by (simp add: g2)
  assume "take (num_psc g) (grid_xyz_all g) = grid_xyz g"
  then show "take (num_psc g2) (grid_xyz_all g2) = grid_xyz g2"
    by (simp add: f)
qed

theorem expansion_then_restriction_witness:
  "(0::nat) < nfp demo_grid \<and>
   setup_full_grid demo_collab demo_grid = Inr (projr (setup_full_grid demo_collab demo_grid)) \<and>
   length (coil_normals demo_grid) = num_psc demo_grid \<and>
   setup_orientations demo_collab demo_grid [1] [2] =
     Inr (projr (setup_orientations demo_collab demo_grid [1] [2])) \<and>
   length [1::real] = num_psc demo_grid \<and>
   take (num_psc demo_grid) (grid_xyz_all demo_grid) = grid_xyz demo_grid \<and>
   take (num_psc (projr (setup_full_grid demo_collab demo_grid)))
     (grid_xyz_all (projr (setup_full_grid demo_collab demo_grid))) = [(0, 1, 0)] \<and>
   take (num_psc (projr (setup_full_grid demo_collab demo_grid)))
     (coil_normals_all (projr (setup_full_grid demo_collab demo_grid))) = [(0, 0, 1)] \<and>
   take (num_psc (projr (setup_orientations demo_collab demo_grid [1] [2])))
     (coil_normals_all (projr (setup_orientations demo_collab demo_grid [1] [2]))) =
     coil_normals (projr (setup_orientations demo_collab demo_grid [1] [2])) \<and>
   take (num_psc (projr (setup_orientations demo_collab demo_grid [1] [2])))
     (grid_xyz_all (projr (setup_orientations demo_collab demo_grid [1] [2]))) = [(0, 1, 0)]"
proof -
  let ?G1 = "projr (setup_full_grid demo_collab demo_grid)"
  let ?G2 = "projr (setup_orientations demo_collab demo_grid [1] [2])"
  have fp: "0 < nfp demo_grid" by (simp add: demo_grid_fields)
  have r1: "setup_full_grid demo_collab demo_grid = Inr ?G1"
    by (rule returns_projr[OF demo_full_grid])
  have r2: "setup_orientations demo_collab demo_grid [1] [2] = Inr ?G2"
    by (rule returns_projr[OF demo_orient])
  have c: "take (num_psc demo_grid) (grid_xyz_all demo_grid) = grid_xyz demo_grid"
    by (simp add: demo_grid_expanded demo_grid_fields)
  have n: "length (coil_normals demo_grid) = num_psc demo_grid"
    by (simp add: demo_grid_normals demo_grid_fields)
  from expansion_then_restriction[OF fp, of demo_collab ?G1 "[1]" "[2]" ?G2] r1 r2 c n fp
  show ?thesis
    by (simp add: demo_grid_fields demo_grid_normals setup_full_grid_fields[OF r1]
        setup_orientations_fields[OF r2])
qed


section \<open>The induced currents\<close>

lemma dot_sum:
  assumes "length xs = n" "length ys = n"
  shows "dot xs ys = (\<Sum>k < n. xs ! k * ys ! k)"
proof -
  have "dot xs ys = (\<Sum>k = 0..<length (map2 (*) xs ys). map2 (*) xs ys ! k)"
    unfolding dot_def by (rule sum_list_sum_nth)
  also have "\<dots> = (\<Sum>k < n. xs ! k * ys ! k)"
    using assms by (intro sum.cong) (auto simp: atLeast0LessThan)
  finally show ?thesis .
qed

lemma rectangular_nth: "rectangular r k M \<Longrightarrow> i < r \<Longrightarrow> length (M ! i) = k"
  by (auto simp: rectangular_def)

lemma solve_by_right_inverse:
  assumes ri: "right_inverse M Mi" and lp: "length p = length M"
    and v: "matvec (map (map uminus) Mi) p = Inr v"
  shows "matvec M v = Inr (map uminus p)"
proof -
  let ?n = "length M"
  from ri have rM: "rectangular ?n ?n M" and rI: "rectangular ?n ?n Mi"
    and id: "\<And>i j. i < ?n \<Longrightarrow> j < ?n \<Longrightarrow>
               (\<Sum>k < ?n. M ! i ! k * Mi ! k ! j) = (if i = j then 1 else 0)"
    by (simp_all add: right_inverse_def)
  have lI: "length Mi = ?n" using rI by (simp add: rectangular_def)
  from matvec_InrD[OF v] have vdef: "v = map (\<lambda>row. dot row p) (map (map uminus) Mi)" by simp
  then have lv: "length v = ?n" by (simp add: lI)
  have vk: "v ! k = - (\<Sum>j < ?n. Mi ! k ! j * p ! j)" if "k < ?n" for k
  proof -
    have "v ! k = dot (map uminus (Mi ! k)) p"
      using that by (simp add: vdef lI)
    also have "\<dots> = (\<Sum>j < ?n. map uminus (Mi ! k) ! j * p ! j)"
      using rectangular_nth[OF rI that] lp by (intro dot_sum) simp_all
    also have "\<dots> = (\<Sum>j < ?n. - (Mi ! k ! j * p ! j))"
      using rectangular_nth[OF rI that] by (intro sum.cong) simp_all
    finally show ?thesis by (simp add: sum_negf)
  qed
  have "rectangular ?n (length v) M" using rM lv by simp
  from matvec_returns[OF this] have mv: "matvec M v = Inr (map (\<lambda>row. dot row v) M)" .
  have "map (\<lambda>row. dot row v) M = map uminus p"
  proof (rule nth_equalityI)
    show "length (map (\<lambda>row. dot row v) M) = length (map uminus p)" using lp by simp
  next
    fix i assume "i < length (map (\<lambda>row. dot row v) M)"
    then have i: "i < ?n" by simp
    have "dot (M ! i) v = (\<Sum>k < ?n. M ! i ! k * v ! k)"
      using rectangular_nth[OF rM i] lv by (intro dot_sum) simp_all
    also have "\<dots> = (\<Sum>k < ?n. - (\<Sum>j < ?n. M ! i ! k * (Mi ! k ! j * p ! j)))"
      by (intro sum.cong) (simp_all add: vk sum_distrib_left)
    also have "\<dots> = - (\<Sum>k < ?n. \<Sum>j < ?n. M ! i ! k * Mi ! k ! j * p ! j)"
      by (simp add: sum_negf mult.assoc)
    also have "\<dots> = - (\<Sum>j < ?n. \<Sum>k < ?n. M ! i ! k * Mi ! k ! j * p ! j)"
      by (subst sum.swap) simp
    also have "\<dots> = - (\<Sum>j < ?n. (\<Sum>k < ?n. M ! i ! k * Mi ! k ! j) * p ! j)"
      by (simp add: sum_distrib_right)
    also have "\<dots> = - (\<Sum>j < ?n. (if i = j then 1 else 0) * p ! j)"
      using i by (intro arg_cong[where f = uminus] sum.cong refl) (simp add: id)
    also have "\<dots> = - (p ! i)"
      using i by (simp add: sum.delta' if_distrib[of "\<lambda>x. x * _"] cong: if_cong)
    finally show "map (\<lambda>row. dot row v) M ! i = map uminus p ! i"
      using i lp by simp
  qed
  with mv show ?thesis by simp
qed

lemma fac_nonzero: "fac \<noteq> 0"
  by (simp add: fac_def)

lemma scale_back: "map (\<lambda>x. x * fac) (map (\<lambda>x. x / fac) v) = v"
  using fac_nonzero by (simp add: comp_def)

lemma currents_facts:
  assumes "setup_currents_and_fields c g = Inr g'"
  shows "linalg_inv c (L g') = Some (L_inv g')"
    "\<exists>v. matvec (map (map uminus) (L_inv g')) (psi_total g') = Inr v \<and>
         I_all g' = map (\<lambda>x. x / fac) v"
    "I g' = take (num_psc g') (I_all g')"
    "length (I_all g') = length (L_inv g')"
    "matvec (A_matrix g') (I g') = Inr (Bn_PSC g')"
  using assms
  by (auto elim!: setup_currents_and_fields_InrD simp: num_psc_def dest: matvec_InrD)

lemma singleton_matrix:
  assumes "rectangular 1 1 M"
  shows "M = [[M ! 0 ! 0]]"
proof -
  from assms obtain row where M: "M = [row]" and "length row = 1"
    by (cases M) (auto simp: rectangular_def)
  then obtain x where "row = [x]" by (cases row) auto
  with M show ?thesis by simp
qed

lemma ln_800_gt: "2 < ln (800::real)"
proof -
  have "exp (2::real) = exp 1 * exp 1" by (simp flip: exp_add)
  also have "\<dots> \<le> 3 * 3"
    using exp_le by (intro mult_mono) simp_all
  finally have "exp (2::real) < 800" by simp
  then have "ln (exp (2::real)) < ln 800" by (subst ln_less_cancel_iff) simp_all
  then show ?thesis by simp
qed

lemma demo_d_pos: "0 < demo_d"
  using ln_800_gt by (simp add: demo_d_def)

lemma demo_oriented:
  assumes "setup_orientations demo_collab demo_grid [0] [0] = Inr g1"
  shows "L g1 = [[demo_d]]" "coil_normals_all g1 = [(0, 0, 1)]" "num_psc g1 = 1"
    "nfp g1 = 1" "stellsym g1 = False" "length (alphas_total g1) = 1"
    "grid_xyz_all g1 = [(0, 1, 0)]" "R g1 = 1 / 10" "a g1 = 1 / 1000"
proof -
  note f = setup_orientations_fields[OF assms]
  note l = setup_orientations_lengths[OF demo_shapes_ok assms]
  show n: "num_psc g1 = 1" "nfp g1 = 1" "stellsym g1 = False" "R g1 = 1 / 10" "a g1 = 1 / 1000"
    by (simp_all add: f demo_grid_fields)
  show la: "length (alphas_total g1) = 1" using l(1) by (simp add: demo_grid_fields)
  show "grid_xyz_all g1 = [(0, 1, 0)]" by (simp add: f demo_grid_expanded)
  have r: "rectangular 1 1 (L g1)" using l(3) la by simp
  have e: "8 * R g1 / a g1 = 800" by (simp add: n)
  have "0 < length (L g1)" using r by (simp add: rectangular_def)
  from L_diagonal[OF assms this]
  have "L g1 ! 0 ! 0 = (ln (8 * R g1 / a g1) - 2) * 4 * pi * R g1" by simp
  then have "L g1 ! 0 ! 0 = demo_d"
    unfolding e unfolding n(4) demo_d_def .
  with singleton_matrix[OF r] show "L g1 = [[demo_d]]" by simp
  have cn: "coil_normals g1 = [(0, 0, 1)]"
    using stored_normals[OF assms]
    by (simp add: coil_normal_def flip_small_negative3_def flip_small_negative_def)
  have "take (length [(0::real, 0::real, 1::real)])
          (expanded_normals_xsimd [(0, 0, 1)] 1 0) = [(0, 0, 1)]"
    by (rule take_expanded_normals) simp
  moreover have "coil_normals_all g1 = expanded_normals_xsimd [(0, 0, 1)] 1 0"
    using assms cn
    by (auto elim!: setup_orientations_InrD simp: oriented_def demo_grid_fields)
  moreover have "length (expanded_normals_xsimd [(0::real, 0::real, 1::real)] 1 0) = 1"
    by simp
  ultimately show "coil_normals_all g1 = [(0, 0, 1)]" by simp
qed

lemma demo_flux_integration:
  "flux_integration demo_collab B qr ns qw = map (\<lambda>(x, y, z). z) ns"
  by (simp add: demo_collab_def)

lemma demo_inv_eq:
  "linalg_inv demo_collab M =
     (if is_square M then Some (map (map (\<lambda>x. if x = 0 then 0 else 1 / x)) M) else None)"
  by (simp add: demo_collab_def)

lemma demo_fluxed_built:
  "update_psi demo_collab (projr (setup_orientations demo_collab demo_grid [0] [0])) =
     Inr demo_fluxed"
  unfolding demo_fluxed_def
  by (rule returns_projr[OF update_psi_returns[OF demo_shapes_ok]])

lemma demo_fluxed_fields:
  "L demo_fluxed = [[demo_d]]" "psi_total demo_fluxed = [1]" "num_psc demo_fluxed = 1"
  "nfp demo_fluxed = 1" "stellsym demo_fluxed = False"
  "grid_xyz_all demo_fluxed = [(0, 1, 0)]"
  "nphi demo_fluxed = 1" "ntheta demo_fluxed = 1" "plasma_points demo_fluxed = [(2, 0, 0)]"
proof -
  have r: "setup_orientations demo_collab demo_grid [0] [0] =
      Inr (projr (setup_orientations demo_collab demo_grid [0] [0]))"
    by (rule returns_projr[OF demo_orient])
  note o = demo_oriented[OF r]
  note fo = setup_orientations_fields[OF r]
  note f = update_psi_fields[OF demo_fluxed_built]
  note b = geo_setup_manual_InrD[OF demo_built]
  show "L demo_fluxed = [[demo_d]]" "num_psc demo_fluxed = 1"
    "nfp demo_fluxed = 1" "stellsym demo_fluxed = False"
    "grid_xyz_all demo_fluxed = [(0, 1, 0)]"
    by (simp_all add: f o)
  show "psi_total demo_fluxed = [1]"
    unfolding f(25) by (simp add: o demo_flux_integration)
  show "nphi demo_fluxed = 1" "ntheta demo_fluxed = 1" "plasma_points demo_fluxed = [(2, 0, 0)]"
    by (simp_all add: f fo b demo_surface_def)
qed

lemma demo_currents: "returns (setup_currents_and_fields demo_collab demo_fluxed)"
proof -
  have "linalg_inv demo_collab (L demo_fluxed) = Some [[1 / demo_d]]"
    using demo_d_pos by (simp add: demo_fluxed_fields demo_inv_eq is_square_def)
  from setup_currents_and_fields_returns[OF demo_shapes_ok this]
  show ?thesis
    by (auto simp: demo_fluxed_fields stell_list_def)
qed

text \<open>
  Claim C2. After \<^verbatim>\<open>setup_currents_and_fields\<close>, which follows every orientation update,
  the currents of the whole expanded coil set are \<open>I_all = (- L_inv @ psi_total) / fac\<close> with
  \<open>L_inv\<close> the inverse numpy returned for \<open>L\<close>, one current per row of \<open>L_inv\<close>; whenever
  \<open>L_inv\<close> is a right inverse of \<open>L\<close>, the scaled currents \<open>fac * I_all\<close> solve
  \<open>L x = - psi_total\<close>; and the stored current vector is the restriction
  \<open>I = I_all[:num_psc]\<close> to the fundamental domain.
\<close>

theorem currents_solve_expanded_system:
  assumes "setup_currents_and_fields c g = Inr g'"
  shows "linalg_inv c (L g') = Some (L_inv g') \<and>
    (\<exists>v. matvec (map (map uminus) (L_inv g')) (psi_total g') = Inr v \<and>
         I_all g' = map (\<lambda>x. x / fac) v) \<and>
    length (I_all g') = length (L_inv g') \<and>
    I g' = take (num_psc g') (I_all g') \<and>
    (right_inverse (L g') (L_inv g') \<and> length (psi_total g') = length (L g') \<longrightarrow>
       matvec (L g') (map (\<lambda>x. x * fac) (I_all g')) = Inr (map uminus (psi_total g')))"
proof -
  note c = currents_facts[OF assms]
  from c(2) obtain v where v: "matvec (map (map uminus) (L_inv g')) (psi_total g') = Inr v"
    "I_all g' = map (\<lambda>x. x / fac) v" by blast
  have "matvec (L g') (map (\<lambda>x. x * fac) (I_all g')) = Inr (map uminus (psi_total g'))"
    if "right_inverse (L g') (L_inv g')" "length (psi_total g') = length (L g')"
    using solve_by_right_inverse[OF that v(1)] unfolding v(2) scale_back .
  with c show ?thesis by blast
qed

theorem currents_solve_expanded_system_witness:
  "setup_currents_and_fields demo_collab demo_fluxed =
     Inr (projr (setup_currents_and_fields demo_collab demo_fluxed)) \<and>
   right_inverse (L (projr (setup_currents_and_fields demo_collab demo_fluxed)))
     (L_inv (projr (setup_currents_and_fields demo_collab demo_fluxed))) \<and>
   length (psi_total (projr (setup_currents_and_fields demo_collab demo_fluxed))) =
     length (L (projr (setup_currents_and_fields demo_collab demo_fluxed))) \<and>
   matvec (L (projr (setup_currents_and_fields demo_collab demo_fluxed)))
     (map (\<lambda>x. x * fac) (I_all (projr (setup_currents_and_fields demo_collab demo_fluxed)))) =
     Inr [- 1] \<and>
   I (projr (setup_currents_and_fields demo_collab demo_fluxed)) =
     take 1 (I_all (projr (setup_currents_and_fields demo_collab demo_fluxed)))"
proof -
  let ?G = "projr (setup_currents_and_fields demo_collab demo_fluxed)"
  have r: "setup_currents_and_fields demo_collab demo_fluxed = Inr ?G"
    by (rule returns_projr[OF demo_currents])
  note f = setup_currents_and_fields_fields[OF r]
  have L: "L ?G = [[demo_d]]" "psi_total ?G = [1]" "num_psc ?G = 1"
    by (simp_all add: f demo_fluxed_fields)
  have "linalg_inv demo_collab (L ?G) = Some [[1 / demo_d]]"
    using demo_d_pos by (simp add: L demo_inv_eq is_square_def)
  with currents_facts(1)[OF r] have Li: "L_inv ?G = [[1 / demo_d]]" by simp
  have ri: "right_inverse (L ?G) (L_inv ?G)"
    using demo_d_pos by (simp add: right_inverse_def rectangular_def L Li)
  from currents_solve_expanded_system[OF r] ri r show ?thesis
    by (simp add: L)
qed


section \<open>The value of the objective\<close>

lemma A_matrix_loop_cong:
  assumes "grid_xyz g = grid_xyz h" "grid_xyz_all g = grid_xyz_all h"
    "plasma_points g = plasma_points h" "alphas_total g = alphas_total h"
    "deltas_total g = deltas_total h" "plasma_unitnormals g = plasma_unitnormals h"
    "R g = R h"
  shows "A_matrix_loop c g qs A = A_matrix_loop c h qs A"
proof (induction qs arbitrary: A)
  case Nil
  show ?case by simp
next
  case (Cons q qs)
  have "A_matrix_loop c g (q # qs) A =
      and_then
       (mat_add A
          (A_matrix_simd c (block q (num_psc h) (grid_xyz_all h)) (plasma_points h)
             (block q (num_psc h) (alphas_total h)) (block q (num_psc h) (deltas_total h))
             (plasma_unitnormals h) (R h)))
       (A_matrix_loop c g qs)"
    using assms by (simp add: num_psc_def)
  also have "A_matrix_loop c g qs = A_matrix_loop c h qs"
    using Cons.IH by (rule ext)
  finally show ?case by simp
qed




lemma recomputed_BdotN2 [simp]: "recomputed c (g\<lparr>BdotN2_list := x\<rparr>) = recomputed c g"
proof -
  have "A_matrix_loop c (g\<lparr>BdotN2_list := x\<rparr>) = A_matrix_loop c g"
    by (intro ext A_matrix_loop_cong) simp_all
  then show ?thesis
    by (simp add: recomputed_def num_psc_def stell_list_def)
qed

lemma b_vector_length:
  assumes "b_vector c g = Inr g'" "shapes_ok c"
    "length (plasma_unitnormals g) = length (plasma_points g)"
    "length (Bn_plasma g) = length (plasma_points g)"
  shows "length (b_opt g') = length (plasma_points g)"
  using b_vector_returns[OF assms(2-4)] assms(1) by auto

lemma finish_setup_b_opt:
  assumes "finish_setup c g = Inr g'" "shapes_ok c"
    "length (plasma_unitnormals g) = length (plasma_points g)"
    "length (Bn_plasma g) = length (plasma_points g)"
  shows "length (b_opt g') = length (plasma_points g)"
proof -
  from finish_setup_InrD[OF assms(1)] obtain g1 g2 g3 g4 v where
    s: "setup_full_grid c g = Inr g1"
      "setup_orientations c g1 (alphas g) (deltas g) = Inr g2"
      "update_psi c g2 = Inr g3"
      "setup_currents_and_fields c g3 = Inr g4"
      "b_vector c g4 = Inr (g4\<lparr>b_opt := v\<rparr>)"
      "g' = g4\<lparr>b_opt := v, kappas := alphas g @ deltas g\<rparr>"
    by blast
  note f1 = setup_full_grid_fields[OF s(1)]
  note f2 = setup_orientations_fields[OF s(2)]
  note f3 = update_psi_fields[OF s(3)]
  note f4 = setup_currents_and_fields_fields[OF s(4)]
  from b_vector_length[OF s(5) assms(2)] assms(3,4)
  show ?thesis by (simp add: s(6) f4 f3 f2 f1)
qed

lemma geo_setup_manual_b_opt:
  assumes "geo_setup_manual c points r0 kw = Inr g" "shapes_ok c"
    "length (unitnormal (manual_plasma_boundary c kw)) =
       length (gamma (manual_plasma_boundary c kw))"
    "kw_Bn_plasma kw = None"
    "length (gamma (manual_plasma_boundary c kw)) =
       length (quadpoints_phi (manual_plasma_boundary c kw)) *
       length (quadpoints_theta (manual_plasma_boundary c kw))"
  shows "length (b_opt g) = length (gamma (manual_plasma_boundary c kw))"
proof -
  let ?s = "manual_plasma_boundary c kw"
  from assms(1)[unfolded geo_setup_manual_unfold] obtain g2 g3 ns where
    s: "setup_plasma_boundary ?s (kw_Bn_plasma kw) (manual_start c points r0 kw) = Inr g2"
      "setup_normalization c ?s g2 = Inr g3"
      "finish_setup c (g3\<lparr>coil_normals := map flip_small_negative3 ns\<rparr>) = Inr g"
    by (auto simp: and_then_eq_Inr split: if_splits)
  note f2 = setup_plasma_boundary_InrD[OF s(1)]
  note f3 = setup_normalization_InrD[OF s(2)]
  from finish_setup_b_opt[OF s(3) assms(2)] assms(3,4,5)
  show ?thesis by (simp add: f3(1) f2)
qed

lemma demo_grid_more:
  "length (b_opt demo_grid) = 1" "length (grid_normalization demo_grid) = 1"
  "nphi demo_grid = 1" "ntheta demo_grid = 1" "plasma_points demo_grid = [(2, 0, 0)]"
  using geo_setup_manual_b_opt[OF demo_built demo_shapes_ok] geo_setup_manual_InrD[OF demo_built]
  by (simp_all add: demo_surface_def)

lemma demo_least_squares: "returns (least_squares demo_collab demo_grid [0, 0])"
proof (rule least_squares_returns[OF demo_shapes_ok])
  fix g1 assume "setup_orientations demo_collab demo_grid
      (take (num_psc demo_grid) [0, 0]) (drop (num_psc demo_grid) [0, 0]) = Inr g1"
  then have "rectangular (length (alphas_total g1)) (length (alphas_total g1)) (L g1)"
    by (rule setup_orientations_lengths(3)[OF demo_shapes_ok])
  then have "is_square (L g1)" by (simp add: rectangular_def is_square_def)
  then show "linalg_inv demo_collab (L g1) \<noteq> None" by (rule demo_inv)
qed (simp_all add: demo_grid_fields demo_grid_more demo_grid_expanded symmetry_def)




section \<open>Facts about the constructors and about a run\<close>

lemma setup_uniform_grid_InrD:
  "setup_uniform_grid n rc xyz Nx Ny Nz p_off = Inr (r0, a0, u) \<Longrightarrow> a0 = r0 / 100"
  by (auto simp: setup_uniform_grid_def Let_def split: if_splits)

lemma initial_orientation_fields:
  assumes "initial_orientation c ini g = Inr g'"
  shows "R g' = R g" "a g' = a g" "grid_xyz g' = grid_xyz g" "nfp g' = nfp g"
    "stellsym g' = stellsym g" "fac2_norm g' = fac2_norm g" "nphi g' = nphi g"
    "ntheta g' = ntheta g" "plasma_points g' = plasma_points g"
    "plasma_unitnormals g' = plasma_unitnormals g" "Bn_plasma g' = Bn_plasma g"
    "grid_normalization g' = grid_normalization g"
  using assms
  by (auto simp: initial_orientation_def Let_def and_then_eq_Inr split: if_splits)

lemma grid_stage_InrD:
  assumes "grid_stage c pb inner outer kw = Inr g5"
  shows "a g5 = R g5 / 100" "nfp g5 = s_nfp pb" "stellsym g5 = s_stellsym pb"
    "fac2_norm g5 = fac ^ 2 / ((calculate_on_axis_B c pb) ^ 2 * area pb)"
    "(calculate_on_axis_B c pb) ^ 2 * area pb \<noteq> 0"
proof -
  from assms obtain g1 r0 a0 u g3 g4 where
    s: "setup_plasma_boundary pb (gk_Bn_plasma kw) (init_grid c) = Inr g1"
      "setup_uniform_grid (nfp g1) (rc00 pb) (gamma outer)
         (case gk_Nx kw of None \<Rightarrow> 10 | Some v \<Rightarrow> v)
         (case gk_Ny kw of None \<Rightarrow> (case gk_Nx kw of None \<Rightarrow> 10 | Some v \<Rightarrow> v) | Some v \<Rightarrow> v)
         (case gk_Nz kw of None \<Rightarrow> (case gk_Nx kw of None \<Rightarrow> 10 | Some v \<Rightarrow> v) | Some v \<Rightarrow> v)
         (case gk_poff kw of None \<Rightarrow> 100 | Some v \<Rightarrow> v) = Inr (r0, a0, u)"
      "setup_normalization c pb
         (g1\<lparr>R := r0, a := a0,
             grid_xyz := filter (\<lambda>p. p \<noteq> (0, 0, 0))
               (define_grid c (unitnormal inner) (unitnormal outer) u (gamma inner) (gamma outer)),
             quad_points_rho := map (\<lambda>x. x * r0) (quad_points_rho g1)\<rparr>) = Inr g3"
      "initial_orientation c (case gk_initialization kw of None \<Rightarrow> ''zeros'' | Some v \<Rightarrow> v) g3
         = Inr g4"
      "g5 = g4\<lparr>coil_normals := map flip_small_negative3 (coil_normals g4)\<rparr>"
    unfolding grid_stage_def
    by (auto simp: and_then_eq_Inr Let_def split: if_splits)
  note f1 = setup_plasma_boundary_InrD[OF s(1)]
  note f3 = setup_normalization_InrD[OF s(3)]
  note f4 = initial_orientation_fields[OF s(4)]
  note u = setup_uniform_grid_InrD[OF s(2)]
  show "a g5 = R g5 / 100" "nfp g5 = s_nfp pb" "stellsym g5 = s_stellsym pb"
    "fac2_norm g5 = fac ^ 2 / ((calculate_on_axis_B c pb) ^ 2 * area pb)"
    by (simp_all add: s(5) f4 f3(1) f1 u)
  show "(calculate_on_axis_B c pb) ^ 2 * area pb \<noteq> 0" by (rule f3(2))
qed

lemma geo_setup_grid_InrD:
  assumes "geo_setup_between_toroidal_surfaces c pb inner outer kw = Inr g"
  obtains g5 where "grid_stage c pb inner outer kw = Inr g5"
    "check_symmetry_planes (nfp g5) (R g5) (grid_xyz g5) = Inr ()"
    "check_coil_distances (R g5) (grid_xyz g5) = Inr ()"
    "finish_setup c g5 = Inr g"
  using assms unfolding geo_setup_between_toroidal_surfaces_def
  by (auto simp: and_then_eq_Inr)

lemma geo_setup_grid_fields:
  assumes "geo_setup_between_toroidal_surfaces c pb inner outer kw = Inr g"
  shows "a g = R g / 100"
    "fac2_norm g = fac ^ 2 / ((calculate_on_axis_B c pb) ^ 2 * area pb)"
    "(calculate_on_axis_B c pb) ^ 2 * area pb \<noteq> 0"
    "check_symmetry_planes (nfp g) (R g) (grid_xyz g) = Inr ()"
    "check_coil_distances (R g) (grid_xyz g) = Inr ()"
proof -
  from assms obtain g5 where s: "grid_stage c pb inner outer kw = Inr g5"
    "check_symmetry_planes (nfp g5) (R g5) (grid_xyz g5) = Inr ()"
    "check_coil_distances (R g5) (grid_xyz g5) = Inr ()"
    "finish_setup c g5 = Inr g"
    by (rule geo_setup_grid_InrD)
  note f = finish_setup_fields[OF s(4)]
  note g = grid_stage_InrD[OF s(1)]
  show "a g = R g / 100"
    "fac2_norm g = fac ^ 2 / ((calculate_on_axis_B c pb) ^ 2 * area pb)"
    "check_symmetry_planes (nfp g) (R g) (grid_xyz g) = Inr ()"
    "check_coil_distances (R g) (grid_xyz g) = Inr ()"
    using s(2,3) by (simp_all add: f g)
  show "(calculate_on_axis_B c pb) ^ 2 * area pb \<noteq> 0" by (rule g(5))
qed

lemma least_squares_fields:
  assumes "least_squares c g ks = Inr (v, g')"
  shows "R g' = R g" "a g' = a g" "fac2_norm g' = fac2_norm g" "grid_xyz g' = grid_xyz g"
    "nfp g' = nfp g" "stellsym g' = stellsym g"
proof -
  from least_squares_InrD[OF assms] obtain g1 g2 g3 where
    s: "setup_orientations c g (take (num_psc g) ks) (drop (num_psc g) ks) = Inr g1"
      "update_psi c g1 = Inr g2" "setup_currents_and_fields c g2 = Inr g3"
      "g' = g3\<lparr>BdotN2_list := BdotN2_list g3 @ [v]\<rparr>"
    by blast
  show "R g' = R g" "a g' = a g" "fac2_norm g' = fac2_norm g" "grid_xyz g' = grid_xyz g"
    "nfp g' = nfp g" "stellsym g' = stellsym g"
    by (simp_all add: s(4) setup_currents_and_fields_fields[OF s(3)] update_psi_fields[OF s(2)]
        setup_orientations_fields[OF s(1)])
qed

lemma jacobian_updates_fields:
  assumes "jacobian_updates c g ks = Inr g'"
  shows "R g' = R g" "a g' = a g" "fac2_norm g' = fac2_norm g" "grid_xyz g' = grid_xyz g"
    "nfp g' = nfp g" "stellsym g' = stellsym g"
proof -
  from assms obtain g1 g2 where
    s: "setup_orientations c g (take (num_psc g) ks) (drop (num_psc g) ks) = Inr g1"
      "update_psi c g1 = Inr g2" "setup_currents_and_fields c g2 = Inr g'"
    unfolding jacobian_updates_def by (auto simp: and_then_eq_Inr)
  show "R g' = R g" "a g' = a g" "fac2_norm g' = fac2_norm g" "grid_xyz g' = grid_xyz g"
    "nfp g' = nfp g" "stellsym g' = stellsym g"
    by (simp_all add: setup_currents_and_fields_fields[OF s(3)] update_psi_fields[OF s(2)]
        setup_orientations_fields[OF s(1)])
qed

lemma run_fields:
  "run c g cs = Inr g' \<Longrightarrow>
     R g' = R g \<and> a g' = a g \<and> fac2_norm g' = fac2_norm g \<and> grid_xyz g' = grid_xyz g \<and>
     nfp g' = nfp g \<and> stellsym g' = stellsym g"
proof (induction c g cs rule: run.induct)
  case (1 c g)
  then show ?case by simp
next
  case (2 c g ks cs)
  from "2.prems" obtain v g1 where
    s: "least_squares c g ks = Inr (v, g1)" "run c g1 cs = Inr g'"
    by (auto simp: and_then_eq_Inr)
  from "2.IH"[OF s(2)] least_squares_fields[OF s(1)] show ?case by simp
next
  case (3 c g ks cs)
  from "3.prems" obtain g1 where
    s: "jacobian_updates c g ks = Inr g1" "run c g1 cs = Inr g'"
    by (auto simp: and_then_eq_Inr)
  from "3.IH"[OF s(2)] jacobian_updates_fields[OF s(1)] show ?case by simp
qed



lemma demo_uniform:
  "setup_uniform_grid (Suc 0) rc [(1, 3, - 5), (2, 4, 5)] 2 2 2 p =
     Inr (p / 2.5, p / 2.5 / 100,
       [(1, 3, - 5), (1, 3, 5), (1, 4, - 5), (1, 4, 5),
        (2, 3, - 5), (2, 3, 5), (2, 4, - 5), (2, 4, 5)])"
  by (simp add: setup_uniform_grid_def max_list_def min_list_def linspace_def Let_def
      numeral_2_eq_2)

lemma demo_collab_sel:
  "define_grid demo_collab ni no xyz xi xo = take 2 xyz @ replicate (length xyz - 2) (0, 0, 0)"
  "calculate_on_axis_B demo_collab s = 1"
  "leggauss demo_collab n = (replicate n 0, replicate n (2 / real n))"
  "B_TF_B demo_collab ps = map (\<lambda>p. (0, 0, 1)) ps"
  by (simp_all add: demo_collab_def)

lemma demo_grid_stage:
  "\<exists>g5. grid_stage demo_collab demo_surface demo_surface demo_outer (demo_grid_kwargs p) = Inr g5
     \<and> R g5 = p / 2.5 \<and> a g5 = p / 2.5 / 100 \<and> grid_xyz g5 = [(1, 3, - 5), (1, 3, 5)]
     \<and> nfp g5 = 1 \<and> \<not> stellsym g5 \<and> alphas g5 = [0, 0] \<and> deltas g5 = [0, 0]
     \<and> nphi g5 = 1 \<and> ntheta g5 = 1 \<and> plasma_points g5 = [(2, 0, 0)]
     \<and> plasma_unitnormals g5 = [(1, 0, 0)] \<and> Bn_plasma g5 = [0]"
  by (simp add: grid_stage_def demo_grid_kwargs_def setup_plasma_boundary_def demo_surface_def
      demo_outer_def shape_allclose_def Let_def demo_uniform demo_collab_sel
      setup_normalization_def initial_orientation_def orientation_normals_def num_psc_def
      numeral_2_eq_2 init_grid_def coil_normal_def flip_small_negative3_def
      flip_small_negative_def)

lemma isValueError_and_then: "isValueError r \<Longrightarrow> isValueError (and_then r f)"
  by (cases r) (simp_all add: isValueError_def)

lemma returns_not_ValueError: "returns r \<Longrightarrow> \<not> isValueError r"
  by (cases r) (simp_all add: isValueError_def)


lemma check_symmetry_planes_cases:
  "0 < n \<Longrightarrow> check_symmetry_planes n r0 ps = Inr () \<or> isValueError (check_symmetry_planes n r0 ps)"
  by (simp add: check_symmetry_planes_def isValueError_def)

lemma check_coil_distances_close:
  assumes "i < j" "j < length ps" "dist3 (ps ! i) (ps ! j) < 2 * r0"
  shows "isValueError (check_coil_distances r0 ps)"
proof -
  have "list_ex (\<lambda>i. list_ex (\<lambda>j. dist3 (ps ! i) (ps ! j) < 2 * r0) [i + 1..<length ps])
           [0..<length ps]"
    unfolding list_ex_iff using assms
    by (intro bexI[of _ i] bexI[of _ j]) simp_all
  then show ?thesis
    by (simp add: check_coil_distances_def isValueError_def)
qed

lemma check_coil_distances_InrD:
  assumes "check_coil_distances r0 ps = Inr ()" "i < j" "j < length ps"
  shows "2 * r0 \<le> dist3 (ps ! i) (ps ! j)"
proof (rule ccontr)
  assume "\<not> 2 * r0 \<le> dist3 (ps ! i) (ps ! j)"
  then have "dist3 (ps ! i) (ps ! j) < 2 * r0" by simp
  from check_coil_distances_close[OF assms(2,3) this] assms(1)
  show False by (simp add: isValueError_def)
qed




lemma grid_close_rejected:
  assumes "grid_stage c pb inner outer kw = Inr g5" "0 < nfp g5"
    "i < j" "j < length (grid_xyz g5)"
    "dist3 (grid_xyz g5 ! i) (grid_xyz g5 ! j) < 2 * R g5"
  shows "isValueError (geo_setup_between_toroidal_surfaces c pb inner outer kw)"
proof -
  from check_symmetry_planes_cases[OF assms(2), of "R g5" "grid_xyz g5"]
  show ?thesis
  proof
    assume "check_symmetry_planes (nfp g5) (R g5) (grid_xyz g5) = Inr ()"
    then show ?thesis
      using check_coil_distances_close[OF assms(3-5)]
      by (simp add: geo_setup_between_toroidal_surfaces_def assms(1) isValueError_and_then)
  next
    assume "isValueError (check_symmetry_planes (nfp g5) (R g5) (grid_xyz g5))"
    then show ?thesis
      by (simp add: geo_setup_between_toroidal_surfaces_def assms(1) isValueError_and_then)
  qed
qed

lemma dist3_less_iff: "0 < t \<Longrightarrow> dist3 p q < t \<longleftrightarrow> sumsq3 (sub3 p q) < t ^ 2"
proof -
  assume t: "0 < t"
  have "sqrt (sumsq3 (sub3 p q)) < sqrt (t ^ 2) \<longleftrightarrow> sumsq3 (sub3 p q) < t ^ 2"
    by (rule real_sqrt_less_iff)
  with t show ?thesis by (simp add: dist3_def)
qed

lemma arctan_pos_lt: "0 < x \<Longrightarrow> 0 < arctan x"
  using arctan_less_iff[of 0 x] by simp

lemma no_conflict_quadrant:
  assumes "0 < x" "0 < r0" "r0 \<le> y"
  shows "\<not> plane_conflict n r0 0 (x, y, z)"
proof -
  let ?rho = "sqrt (x ^ 2 + y ^ 2)"
  have xr: "x \<le> ?rho"
    using assms(1) by (intro real_le_rsqrt) simp
  with assms(1) have rp: "0 < ?rho" by linarith
  have "r0 / ?rho \<le> r0 / x"
    using assms(1,2) xr rp by (intro divide_left_mono mult_pos_pos) simp_all
  also have "\<dots> \<le> y / x"
    using assms(1,3) by (intro divide_right_mono) simp_all
  finally have "arctan (r0 / ?rho) \<le> arctan (y / x)"
    by (simp add: arctan_le_iff)
  moreover have "0 < arctan (y / x)"
    using assms by (intro arctan_pos_lt) simp
  ultimately show ?thesis
    using assms(1) rp by (simp add: plane_conflict_def arctan2_def)
qed

lemma demo_manual_returns:
  assumes "kw_Bn_plasma kw = None" "\<not> kw_interpolated_field kw"
    "kw_alphas kw = Some als" "kw_deltas kw = Some des"
    "length als = length points" "length des = length points"
    "r0 \<noteq> 0" "(case kw_a kw of None \<Rightarrow> r0 / 100 | Some v \<Rightarrow> v) \<noteq> 0"
    "0 < 8 * r0 / (case kw_a kw of None \<Rightarrow> r0 / 100 | Some v \<Rightarrow> v)"
    "manual_plasma_boundary demo_collab kw = demo_surface\<lparr>s_nfp := n, s_stellsym := b\<rparr>"
    "check_symmetry_planes n r0 points = Inr ()"
  shows "returns (geo_setup_manual demo_collab points r0 kw)"
  using assms(1-9)
proof (rule geo_setup_manual_returns[OF demo_shapes_ok])
  show "check_symmetry_planes (s_nfp (manual_plasma_boundary demo_collab kw)) r0 points = Inr ()"
    using assms(11) by (simp add: assms(10))
qed (simp_all add: assms(10) demo_surface_def demo_collab_sel demo_inv)


lemma demo_check2: "check_symmetry_planes (Suc 0) (1 / 10) [(0, 1, 0), (0, 1, 1 / 20)] = Inr ()"
  by (simp add: check_symmetry_planes_def bad_indices_def no_conflict_y_axis numeral_2_eq_2)


lemma demo_close: "dist3 (0, 1, 0) (0, 1, 1 / 20) < 2 * (1 / 10)"
  by (subst dist3_less_iff) (simp_all add: sumsq3_def sub3_def power2_eq_square)

lemma demo_grid_checks:
  "check_symmetry_planes 1 (1 / 10) [(1, 3, - 5), (1, 3, 5)] = Inr ()"
  "check_coil_distances (1 / 10) [(1, 3, - 5), (1, 3, 5)] = Inr ()"
proof -
  show "check_symmetry_planes 1 (1 / 10) [(1, 3, - 5), (1, 3, 5)] = Inr ()"
    by (simp add: check_symmetry_planes_def bad_indices_def no_conflict_quadrant numeral_2_eq_2)
  have "\<not> dist3 (1, 3, - 5) (1, 3, 5) < 2 * (1 / 10)"
    by (subst dist3_less_iff) (simp_all add: sumsq3_def sub3_def power2_eq_square)
  then show "check_coil_distances (1 / 10) [(1, 3, - 5), (1, 3, 5)] = Inr ()"
    by (simp add: check_coil_distances_def numeral_2_eq_2 upt_rec)
qed

lemma demo_grid_built:
  "returns (geo_setup_between_toroidal_surfaces demo_collab demo_surface demo_surface demo_outer
     (demo_grid_kwargs (1 / 4)))"
proof -
  from demo_grid_stage[of "1 / 4"] obtain g5 where
    g5: "grid_stage demo_collab demo_surface demo_surface demo_outer (demo_grid_kwargs (1 / 4)) = Inr g5"
    and f: "R g5 = 1 / 4 / 2.5" "a g5 = 1 / 4 / 2.5 / 100" "grid_xyz g5 = [(1, 3, - 5), (1, 3, 5)]"
      "nfp g5 = 1" "\<not> stellsym g5" "alphas g5 = [0, 0]" "deltas g5 = [0, 0]"
      "nphi g5 = 1" "ntheta g5 = 1" "plasma_points g5 = [(2, 0, 0)]"
      "plasma_unitnormals g5 = [(1, 0, 0)]" "Bn_plasma g5 = [0]"
    by blast
  have inv': "linalg_inv demo_collab (L g2) \<noteq> None"
    if "setup_orientations demo_collab g1 (alphas g5) (deltas g5) = Inr g2" for g1 g2
    using setup_orientations_lengths(3)[OF demo_shapes_ok that]
    by (intro demo_inv) (simp add: rectangular_def is_square_def)
  have "\<exists>g'. finish_setup demo_collab g5 = Inr g' \<and> length (b_opt g') = nphi g5 * ntheta g5"
    by (intro finish_setup_returns[OF demo_shapes_ok] inv') (simp_all add: f num_psc_def)
  then obtain g' where "finish_setup demo_collab g5 = Inr g'" by blast
  then show ?thesis
    using demo_grid_checks
    by (simp add: geo_setup_between_toroidal_surfaces_def g5 f)
qed

lemma no_conflict_slope:
  assumes "0 < x" "r0 / sqrt (x ^ 2 + y ^ 2) \<le> y / x"
  shows "\<not> plane_conflict n r0 0 (x, y, z)"
proof -
  have "sqrt (x ^ 2 + y ^ 2) \<ge> x"
    using assms(1) by (intro real_le_rsqrt) simp
  with assms(1) have rp: "0 < sqrt (x ^ 2 + y ^ 2)" by linarith
  from assms(2) have "arctan (r0 / sqrt (x ^ 2 + y ^ 2)) \<le> arctan (y / x)"
    by (simp add: arctan_le_iff)
  moreover have "arctan (y / x) \<le> \<bar>arctan (y / x)\<bar>" by simp
  ultimately show ?thesis
    using assms(1) rp by (simp add: plane_conflict_def arctan2_def)
qed

lemma sqrt10_bounds: "2 \<le> sqrt 10" "sqrt 10 < 4"
proof -
  have "sqrt 4 \<le> sqrt 10" by (simp only: real_sqrt_le_iff)
  then show "2 \<le> sqrt 10" by simp
  have "sqrt 10 < sqrt 16" by (simp only: real_sqrt_less_iff)
  then show "sqrt 10 < 4" by simp
qed

lemma demo_grid_checks15:
  "check_symmetry_planes (Suc 0) 6 [(1, 3, - 5), (1, 3, 5)] = Inr ()"
proof -
  have "6 / sqrt 10 \<le> (3::real)"
    using sqrt10_bounds(1) by (simp add: field_simps)
  then have "\<not> plane_conflict (Suc 0) 6 0 (1, 3, z)" for z
    by (intro no_conflict_slope) simp_all
  then show ?thesis
    by (simp add: check_symmetry_planes_def bad_indices_def numeral_2_eq_2)
qed


lemma demo_run: "returns (run demo_collab demo_grid [Evaluate [0, 0]])"
proof -
  from demo_least_squares obtain v g where "least_squares demo_collab demo_grid [0, 0] = Inr (v, g)"
    by (cases "least_squares demo_collab demo_grid [0, 0]") (auto simp: returns_def)
  then show ?thesis by (simp add: returns_def)
qed


section \<open>Rejected geometries\<close>

text \<open>
  Claim C5, as the specification states it for \<^verbatim>\<open>geo_setup_manual\<close>, fails: the constructor
  from explicit points compares no pair of centers. Two centers at distance \<open>1/20\<close> with
  \<open>R = 1/10\<close> (so \<open>1/20 < 2 R\<close>) are accepted: the construction returns a grid and raises no
  \<^verbatim>\<open>ValueError\<close>.
\<close>

theorem manual_close_centers_counterexample:
  "dist3 (0, 1, 0) (0, 1, 1 / 20) < 2 * (1 / 10) \<and>
   returns (geo_setup_manual demo_collab [(0, 1, 0), (0, 1, 1 / 20)] (1 / 10)
     (demo_kwargs\<lparr>kw_alphas := Some [0, 0], kw_deltas := Some [0, 0]\<rparr>)) \<and>
   \<not> isValueError (geo_setup_manual demo_collab [(0, 1, 0), (0, 1, 1 / 20)] (1 / 10)
     (demo_kwargs\<lparr>kw_alphas := Some [0, 0], kw_deltas := Some [0, 0]\<rparr>))"
proof -
  have "returns (geo_setup_manual demo_collab [(0, 1, 0), (0, 1, 1 / 20)] (1 / 10)
     (demo_kwargs\<lparr>kw_alphas := Some [0, 0], kw_deltas := Some [0, 0]\<rparr>))"
    by (rule demo_manual_returns[where n = 1 and b = False and als = "[0, 0]" and des = "[0, 0]"])
      (simp_all add: demo_check2 manual_plasma_boundary_def demo_collab_def demo_surface_def)
  with demo_close returns_not_ValueError show ?thesis by blast
qed

text \<open>
  Claim C5, amended. The constructor \<^verbatim>\<open>geo_setup_between_toroidal_surfaces\<close> raises a
  \<^verbatim>\<open>ValueError\<close> whenever two of the centers it has kept, \<open>i < j < num_psc\<close>, are at distance
  strictly less than \<open>2 R\<close> (for a number of field periods \<open>nfp > 0\<close>). The constructor
  \<^verbatim>\<open>geo_setup_manual\<close> makes no such check.
\<close>

theorem coil_distance_rejection:
  assumes "grid_stage c pb inner outer kw = Inr g5" and "0 < nfp g5"
    and "i < j" and "j < num_psc g5"
    and "dist3 (grid_xyz g5 ! i) (grid_xyz g5 ! j) < 2 * R g5"
  shows "isValueError (geo_setup_between_toroidal_surfaces c pb inner outer kw)"
  using assms by (intro grid_close_rejected[where i = i and j = j and ?g5.0 = g5]) (simp_all add: num_psc_def)

theorem coil_distance_rejection_witness:
  "check_symmetry_planes (Suc 0) 6 [(1, 3, - 5), (1, 3, 5)] = Inr () \<and>
   dist3 (1, 3, - 5) (1, 3, 5) < 2 * 6 \<and>
   isValueError (geo_setup_between_toroidal_surfaces demo_collab demo_surface demo_surface
     demo_outer (demo_grid_kwargs 15))"
proof -
  from demo_grid_stage[of 15] obtain g5 where
    g5: "grid_stage demo_collab demo_surface demo_surface demo_outer (demo_grid_kwargs 15) = Inr g5"
    and f: "R g5 = 15 / 2.5" "grid_xyz g5 = [(1, 3, - 5), (1, 3, 5)]" "nfp g5 = 1"
    by blast
  have d: "dist3 (1, 3, - 5) (1, 3, 5) < 2 * 6"
    by (subst dist3_less_iff) (simp_all add: sumsq3_def sub3_def power2_eq_square)
  have "isValueError (geo_setup_between_toroidal_surfaces demo_collab demo_surface demo_surface
     demo_outer (demo_grid_kwargs 15))"
    using d by (intro coil_distance_rejection[OF g5, of 0 1]) (simp_all add: f num_psc_def)
  with d demo_grid_checks15 show ?thesis by simp
qed





section \<open>The coil radii\<close>

text \<open>
  Claim C9, as the specification states it, fails in the explicit-points mode: there the minor
  radius is \<^verbatim>\<open>kwargs.pop("a", R / 100.0)\<close>, so a keyword \<open>a\<close> overrides the ratio. With
  \<open>R = 1/10\<close> and \<open>a = 1\<close> the constructed grid has \<open>a = 1\<close>, which is not \<open>R / 100\<close>.
\<close>

theorem minor_radius_keyword_counterexample:
  "returns (geo_setup_manual demo_collab [(0, 1, 0)] (1 / 10) (demo_kwargs\<lparr>kw_a := Some 1\<rparr>)) \<and>
   R (projr (geo_setup_manual demo_collab [(0, 1, 0)] (1 / 10) (demo_kwargs\<lparr>kw_a := Some 1\<rparr>)))
     = 1 / 10 \<and>
   a (projr (geo_setup_manual demo_collab [(0, 1, 0)] (1 / 10) (demo_kwargs\<lparr>kw_a := Some 1\<rparr>)))
     = 1 \<and>
   a (projr (geo_setup_manual demo_collab [(0, 1, 0)] (1 / 10) (demo_kwargs\<lparr>kw_a := Some 1\<rparr>)))
     \<noteq> R (projr (geo_setup_manual demo_collab [(0, 1, 0)] (1 / 10)
           (demo_kwargs\<lparr>kw_a := Some 1\<rparr>))) / 100"
proof -
  let ?r = "geo_setup_manual demo_collab [(0, 1, 0)] (1 / 10) (demo_kwargs\<lparr>kw_a := Some 1\<rparr>)"
  have r: "returns ?r"
    by (rule demo_manual_returns[where n = 1 and b = False and als = "[0]" and des = "[0]"])
      (use demo_check in \<open>simp_all add: manual_plasma_boundary_def demo_collab_def demo_surface_def\<close>)
  then have "?r = Inr (projr ?r)" by (rule returns_projr)
  from geo_setup_manual_InrD(1,2)[OF this] r show ?thesis by simp
qed

text \<open>
  Claim C9, amended. A grid constructed by \<^verbatim>\<open>geo_setup_between_toroidal_surfaces\<close> has
  \<open>a = R / 100\<close>; a grid constructed by \<^verbatim>\<open>geo_setup_manual\<close> has the major radius it was
  given and \<open>a = R / 100\<close> unless the keyword \<open>a\<close> is given, which is then the minor radius.
  In both modes \<open>R\<close> and \<open>a\<close> are unchanged by every sequence of evaluations and gradient
  evaluations that follows.
\<close>

theorem radii_fixed:
  assumes "geo_setup_between_toroidal_surfaces c pb inner outer gkw = Inr g0 \<and> a0 = R g0 / 100 \<or>
           geo_setup_manual c points r0 kw = Inr g0 \<and> R g0 = r0 \<and>
             a0 = (case kw_a kw of None \<Rightarrow> r0 / 100 | Some v \<Rightarrow> v)"
    and "run c g0 cs = Inr g"
  shows "a g0 = a0 \<and> R g = R g0 \<and> a g = a g0"
proof -
  have "a g0 = a0"
    using assms(1) geo_setup_grid_fields(1) geo_setup_manual_InrD(1,2) by metis
  with run_fields[OF assms(2)] show ?thesis by simp
qed

theorem radii_fixed_witness:
  "returns (geo_setup_between_toroidal_surfaces demo_collab demo_surface demo_surface demo_outer
     (demo_grid_kwargs (1 / 4))) \<and>
   a (projr (geo_setup_between_toroidal_surfaces demo_collab demo_surface demo_surface demo_outer
     (demo_grid_kwargs (1 / 4)))) =
   R (projr (geo_setup_between_toroidal_surfaces demo_collab demo_surface demo_surface demo_outer
     (demo_grid_kwargs (1 / 4)))) / 100 \<and>
   geo_setup_manual demo_collab [(0, 1, 0)] (1 / 10) demo_kwargs = Inr demo_grid \<and>
   returns (run demo_collab demo_grid [Evaluate [0, 0]]) \<and>
   a demo_grid = 1 / 10 / 100 \<and>
   R (projr (run demo_collab demo_grid [Evaluate [0, 0]])) = 1 / 10 \<and>
   a (projr (run demo_collab demo_grid [Evaluate [0, 0]])) = 1 / 10 / 100"
proof -
  let ?b = "geo_setup_between_toroidal_surfaces demo_collab demo_surface demo_surface demo_outer
     (demo_grid_kwargs (1 / 4))"
  let ?r = "run demo_collab demo_grid [Evaluate [0, 0]]"
  have b: "?b = Inr (projr ?b)" using demo_grid_built by (rule returns_projr)
  have r: "?r = Inr (projr ?r)" using demo_run by (rule returns_projr)
  have e: "run demo_collab (projr ?b) [] = Inr (projr ?b)" by simp
  have m: "geo_setup_manual demo_collab [(0, 1, 0)] (1 / 10) demo_kwargs = Inr demo_grid \<and>
      R demo_grid = 1 / 10 \<and>
      1 / 10 / 100 = (case kw_a demo_kwargs of None \<Rightarrow> 1 / 10 / 100 | Some v \<Rightarrow> v)"
    using demo_built demo_grid_fields(1) by simp
  from radii_fixed[OF disjI1[OF conjI[OF b refl]] e]
  have c1: "a (projr ?b) = R (projr ?b) / 100" by (rule conjunct1)
  from radii_fixed[OF disjI2[OF m] r]
  have c2: "a demo_grid = 1 / 10 / 100" and c3: "R (projr ?r) = R demo_grid"
    and c4: "a (projr ?r) = a demo_grid"
    by blast+
  have c5: "R (projr ?r) = 1 / 10" by (simp only: c3 demo_grid_fields(1))
  have c6: "a (projr ?r) = 1 / 10 / 100" by (simp only: c4 c2)
  show ?thesis by (intro conjI demo_grid_built c1 demo_built demo_run c2 c5 c6)
qed


section \<open>The sign of the objective\<close>



end
